theory Spec2Isabelle
  imports Main "HOL-Library.Word"
begin

unbundle bit_operations_syntax

section \<open>The TDS session engine of pytds (src/pytds/tds.py)\<close>

text \<open>
  Conventions of the embedding.
  \<^item> A Python method that mutates \<open>self\<close> and may raise becomes a function from the
    object to a pair \<open>(outcome, object')\<close>: the outcome is \<open>Inr v\<close> for a normal return
    of \<open>v\<close> and \<open>Inl e\<close> for a raised exception \<open>e\<close>; the second component is the
    object as the call left it (mutations made before a raise stay).
  \<^item> A loop that may run forever is a \<^theory_text>\<open>partial_function (option)\<close>; \<open>None\<close>
    means that the call does not return.
  \<^item> The transport is an external collaborator. Its outbound half (\<open>sendall\<close>) is the
    list of byte strings handed to it so far, kept with the writer; its inbound half
    (\<open>recv_into\<close>) is a script of events, kept with the reader.
  \<^item> Bytes held in buffers are \<open>8 word\<close>; Python's unbounded integers are \<open>int\<close> or,
    for lengths and positions, \<open>nat\<close>.
\<close>

subsection \<open>Exceptions\<close>

type_synonym byte = "8 word"

record tds_message =
  marker :: nat
  msgno :: int
  msg_state :: nat
  severity :: nat
  message :: string
  server :: string
  proc_name :: string
  line_number :: int

datatype db_error_class = ProgrammingError | IntegrityError | OperationalError

text \<open>
  \<open>DbException c text m\<close> is the exception object built by
  \<open>_create_exception_by_message\<close>: its class, the text it was constructed with, and
  the message whose fields fill its attributes (\<open>msg_no\<close>, \<open>text\<close>, \<open>srvname\<close>, ...).
  \<open>TdsError\<close> is \<open>tds_base.Error\<close>, \<open>StructError\<close> is \<open>struct.error\<close>.
\<close>

datatype error =
    ClosedConnectionError
  | TimeoutError
  | InterfaceError string
  | TdsError string
  | DbException db_error_class string tds_message
  | StructError
  | IndexError
  | ValueError
  | KeyError
  | AssertionError

subsection \<open>\<open>_TdsWriter\<close>\<close>

text \<open>
  The fields \<open>_pos\<close>, \<open>_buf\<close>, \<open>_packet_no\<close>, \<open>_type\<close> of the class, and
  \<open>w_sent\<close>, the arguments of the calls of \<open>self._transport.sendall\<close> so far, oldest
  first.
\<close>

record tds_writer =
  w_pos :: nat
  w_buf :: "byte list"
  w_packet_no :: nat
  w_type :: nat
  w_sent :: "byte list list"

text \<open>
  \<open>_header = struct.Struct('>BBHHBx')\<close>: two unsigned bytes, two big-endian unsigned
  16-bit values, one unsigned byte and a pad byte. \<open>pack\<close> raises \<open>struct.error\<close> when a
  value does not fit its field.
\<close>

definition header_pack :: "nat \<Rightarrow> nat \<Rightarrow> nat \<Rightarrow> nat \<Rightarrow> nat \<Rightarrow> error + byte list" where
  "header_pack ty status len sp pkt =
     (if ty < 256 \<and> status < 256 \<and> len < 65536 \<and> sp < 65536 \<and> pkt < 256
      then Inr [of_nat ty, of_nat status,
                of_nat (len div 256), of_nat (len mod 256),
                of_nat (sp div 256), of_nat (sp mod 256),
                of_nat pkt, 0]
      else Inl StructError)"

text \<open>
  \<open>_header.pack_into(buf, 0, ...)\<close>: raises \<open>struct.error\<close> when the buffer is shorter
  than the 8 bytes of the header, otherwise overwrites its first 8 bytes.
\<close>

definition header_pack_into ::
  "byte list \<Rightarrow> nat \<Rightarrow> nat \<Rightarrow> nat \<Rightarrow> nat \<Rightarrow> nat \<Rightarrow> error + byte list" where
  "header_pack_into buf ty status len sp pkt =
     (if length buf < 8 then Inl StructError
      else case header_pack ty status len sp pkt of
             Inl e \<Rightarrow> Inl e
           | Inr h \<Rightarrow> Inr (h @ drop 8 buf))"

text \<open>The \<open>bufsize\<close> property and its setter.\<close>

definition bufsize :: "tds_writer \<Rightarrow> nat" where
  "bufsize w = length (w_buf w)"


definition begin_packet :: "nat \<Rightarrow> tds_writer \<Rightarrow> tds_writer" where
  "begin_packet packet_type w = w\<lparr>w_type := packet_type, w_pos := 8\<rparr>"

text \<open>
  \<open>_write_packet(final)\<close>: packs the header into the buffer, advances the packet
  number, hands \<open>self._buf[:self._pos]\<close> to \<open>sendall\<close> and resets \<open>_pos\<close>. Nothing is
  changed when packing the header raises.
\<close>

definition write_packet :: "bool \<Rightarrow> tds_writer \<Rightarrow> (error + unit) \<times> tds_writer" where
  "write_packet final w =
     (let status = (if final then 1 else 0) in
      case header_pack_into (w_buf w) (w_type w) status (w_pos w) 0 (w_packet_no w) of
        Inl e \<Rightarrow> (Inl e, w)
      | Inr buf' \<Rightarrow>
          (Inr (),
           w\<lparr>w_buf := buf',
             w_packet_no := (w_packet_no w + 1) mod 256,
             w_sent := w_sent w @ [take (w_pos w) buf'],
             w_pos := 8\<rparr>))"

definition flush :: "tds_writer \<Rightarrow> (error + unit) \<times> tds_writer" where
  "flush w = write_packet True w"

text \<open>
  The loop of \<open>write(data)\<close>, started at \<open>data_off\<close>. \<open>left\<close> is an \<open>int\<close>: it is negative
  when the position lies beyond the buffer. The slice assignment
  \<open>self._buf[pos:pos + to_write] = data[data_off:data_off + to_write]\<close> replaces that
  range of the buffer. With a buffer of exactly 8 bytes the loop emits empty packets
  for ever: the result is \<open>None\<close>.
\<close>

partial_function (option) write_loop ::
  "byte list \<Rightarrow> nat \<Rightarrow> tds_writer \<Rightarrow> ((error + unit) \<times> tds_writer) option" where
  "write_loop data data_off w =
     (if data_off < length data then
        (let left = int (length (w_buf w)) - int (w_pos w) in
         if left \<le> 0 then
           (case write_packet False w of
              (Inl e, w') \<Rightarrow> Some (Inl e, w')
            | (Inr u, w') \<Rightarrow> write_loop data data_off w')
         else
           (let to_write = min (nat left) (length data - data_off) in
            write_loop data (data_off + to_write)
              (w\<lparr>w_buf := take (w_pos w) (w_buf w)
                          @ take to_write (drop data_off data)
                          @ drop (w_pos w + to_write) (w_buf w),
                 w_pos := w_pos w + to_write\<rparr>)))
      else Some (Inr (), w))"

declare write_loop.simps [code]

definition writer_write :: "byte list \<Rightarrow> tds_writer \<Rightarrow> ((error + unit) \<times> tds_writer) option" where
  "writer_write data w = write_loop data 0 w"

text \<open>
  A logical message as its producers (\<open>send_prelogin\<close>, \<open>querying_context\<close>, ...) emit
  it: \<open>begin_packet\<close>, then one \<open>write\<close> per chunk, then \<open>flush\<close>. An exception ends the
  sequence.
\<close>

fun write_chunks ::
  "byte list list \<Rightarrow> tds_writer \<Rightarrow> ((error + unit) \<times> tds_writer) option" where
  "write_chunks [] w = Some (Inr (), w)"
| "write_chunks (d # ds) w =
     (case writer_write d w of
        None \<Rightarrow> None
      | Some (Inl e, w') \<Rightarrow> Some (Inl e, w')
      | Some (Inr u, w') \<Rightarrow> write_chunks ds w')"

definition send_message ::
  "nat \<Rightarrow> byte list list \<Rightarrow> tds_writer \<Rightarrow> ((error + unit) \<times> tds_writer) option" where
  "send_message packet_type chunks w =
     (case write_chunks chunks (begin_packet packet_type w) of
        None \<Rightarrow> None
      | Some (Inl e, w') \<Rightarrow> Some (Inl e, w')
      | Some (Inr u, w') \<Rightarrow> Some (flush w'))"

text \<open>Reading a sent packet back: its payload and the low bit of its status byte.\<close>

definition packet_payload :: "byte list \<Rightarrow> byte list" where
  "packet_payload p = drop 8 p"

definition packet_final :: "byte list \<Rightarrow> bool" where
  "packet_final p = (1 < length p \<and> bit (p ! 1) 0)"

definition packet_number :: "byte list \<Rightarrow> nat" where
  "packet_number p = unat (p ! 6)"

subsection \<open>The session and its connection\<close>

text \<open>
  Modelled from the spec: the state constants \<open>TDS_IDLE\<close> ... \<open>TDS_DEAD\<close> and
  \<open>state_names\<close> of \<open>tds_base\<close>, a module that is not among the sources. The spec
  gives the five states by name. In Python they are integers, and \<open>set_state\<close> ends
  with \<open>assert False\<close> for any other integer; the type below has no other value.
\<close>

datatype tds_state = TDS_IDLE | TDS_QUERYING | TDS_PENDING | TDS_READING | TDS_DEAD

fun state_names :: "tds_state \<Rightarrow> string" where
  "state_names TDS_IDLE = ''IDLE''"
| "state_names TDS_QUERYING = ''QUERYING''"
| "state_names TDS_PENDING = ''PENDING''"
| "state_names TDS_READING = ''READING''"
| "state_names TDS_DEAD = ''DEAD''"

text \<open>
  The inbound half of the transport: each \<open>recv_into\<close> consumes from the head of a
  script. \<open>Received bs\<close> are bytes that have arrived (\<open>Received []\<close>: the peer closed the
  connection, the call returns 0), \<open>TimedOut\<close> makes the call raise \<open>TimeoutError\<close>.
  An exhausted script counts as a closed connection.
\<close>

datatype recv_event = Received "byte list" | TimedOut

text \<open>The fields of \<open>_TdsReader\<close>; \<open>r_transport\<close> is the inbound script.\<close>

record tds_reader =
  r_buf :: "byte list"
  r_pos :: nat
  r_have :: nat
  r_size :: nat
  r_type :: "nat option"
  r_status :: "nat option"
  r_transport :: "recv_event list"

text \<open>\<open>_Results\<close>, without its columns.\<close>

record results =
  more_results :: bool
  row_count :: nat

text \<open>
  \<open>_TdsSocket\<close> (the connection), as far as the handlers modelled here touch it.
\<close>

record tds_socket =
  tds72_transaction :: nat
  env_database :: "string option"
  env_language :: "string option"
  route :: "(string \<times> nat) option"
  mars_enabled :: bool
  server_library_version :: "(nat \<times> nat) option"

text \<open>
  \<open>_TdsSession\<close>. \<open>in_cancel\<close> holds \<open>False\<close> or, after \<open>put_cancel\<close>, the truthy \<open>1\<close>;
  it is only ever tested for truth. \<open>transport_closed\<close> records \<open>self._transport.close()\<close>
  and \<open>tls_established\<close> a call of the external \<open>tls.establish_channel(self)\<close>.
\<close>

record tds_session =
  state :: tds_state
  in_cancel :: bool
  messages :: "tds_message list"
  rows_affected :: int
  internal_sp_called :: int
  more_rows :: bool
  done_flags :: nat
  end_marker :: nat
  res_info :: "results option"
  spid :: nat
  writer :: tds_writer
  reader :: tds_reader
  conn :: tds_socket
  transport_closed :: bool
  tls_established :: bool

subsection \<open>\<open>set_state\<close>\<close>

text \<open>
  \<open>TDS_NO_COUNT\<close> belongs to \<open>tds_base\<close>, which is not among the sources; it is
  taken to be the \<open>-1\<close> that \<open>__init__\<close> and \<open>process_end\<close> write for "no count".
\<close>

definition TDS_NO_COUNT :: int where
  "TDS_NO_COUNT = - 1"

definition logic_error :: "string \<Rightarrow> tds_state \<Rightarrow> tds_state \<Rightarrow> error" where
  "logic_error verb prior_state st =
     InterfaceError (''logic error: cannot '' @ verb @ '' query state from ''
                     @ state_names prior_state @ '' to '' @ state_names st)"

definition set_state :: "tds_state \<Rightarrow> tds_session \<Rightarrow> (error + tds_state) \<times> tds_session" where
  "set_state st s =
     (let prior_state = state s in
      if st = prior_state then (Inr st, s)
      else case st of
        TDS_PENDING \<Rightarrow>
          if prior_state = TDS_READING \<or> prior_state = TDS_QUERYING
          then (Inr TDS_PENDING, s\<lparr>state := TDS_PENDING\<rparr>)
          else (Inl (logic_error ''chage'' prior_state st), s)
      | TDS_READING \<Rightarrow>
          if state s \<noteq> TDS_PENDING
          then (Inl (logic_error ''change'' prior_state st), s)
          else (Inr st, s\<lparr>state := st\<rparr>)
      | TDS_IDLE \<Rightarrow>
          if prior_state = TDS_DEAD
          then (Inl (logic_error ''change'' prior_state st), s)
          else (Inr st, s\<lparr>state := st\<rparr>)
      | TDS_DEAD \<Rightarrow> (Inr st, s\<lparr>state := st\<rparr>)
      | TDS_QUERYING \<Rightarrow>
          if state s = TDS_DEAD
          then (Inl (logic_error ''change'' prior_state st), s)
          else if state s \<noteq> TDS_IDLE
          then (Inl (logic_error ''change'' prior_state st), s)
          else (Inr st, s\<lparr>rows_affected := TDS_NO_COUNT, internal_sp_called := 0,
                           state := st\<rparr>))"

text \<open>
  The transitions as the spec documents them: QUERYING only from IDLE, READING only
  from PENDING, PENDING only from QUERYING or READING, IDLE from any state except
  DEAD, DEAD from any state, and the same state always.
\<close>

definition documented_transition :: "tds_state \<Rightarrow> tds_state \<Rightarrow> bool" where
  "documented_transition from to =
     (to = from
      \<or> (to = TDS_QUERYING \<and> from = TDS_IDLE)
      \<or> (to = TDS_READING \<and> from = TDS_PENDING)
      \<or> (to = TDS_PENDING \<and> (from = TDS_QUERYING \<or> from = TDS_READING))
      \<or> (to = TDS_IDLE \<and> from \<noteq> TDS_DEAD)
      \<or> to = TDS_DEAD)"

subsection \<open>\<open>raise_db_exception\<close> and \<open>_create_exception_by_message\<close>\<close>

text \<open>
  The sets \<open>prog_errors\<close> and \<open>integrity_errors\<close> belong to \<open>tds_base\<close>, which is not
  among the sources: they are parameters.
\<close>

definition create_exception_by_message ::
  "int set \<Rightarrow> int set \<Rightarrow> tds_message \<Rightarrow> string option \<Rightarrow> error" where
  "create_exception_by_message prog_errors integrity_errors msg custom_error_msg =
     (let msg_no = msgno msg;
          error_msg = (case custom_error_msg of Some c \<Rightarrow> c | None \<Rightarrow> message msg)
      in if msg_no \<in> prog_errors then DbException ProgrammingError error_msg msg
         else if msg_no \<in> integrity_errors then DbException IntegrityError error_msg msg
         else DbException OperationalError error_msg msg)"

text \<open>\<open>' '.join(...)\<close>\<close>

fun join_space :: "string list \<Rightarrow> string" where
  "join_space [] = []"
| "join_space [x] = x"
| "join_space (x # y # ys) = x @ '' '' @ join_space (y # ys)"

text \<open>
  The \<open>while True\<close> loop of \<open>raise_db_exception\<close>. \<open>self.messages[-1]\<close> raises
  \<open>IndexError\<close> on an empty list. The result pairs the outcome with \<open>self.messages\<close> as
  the loop leaves it.
\<close>

function skip_terminated :: "tds_message list \<Rightarrow> (error + tds_message) \<times> tds_message list" where
  "skip_terminated msgs =
     (if msgs = [] then (Inl IndexError, msgs)
      else if msgno (last msgs) = 3621 then skip_terminated (butlast msgs)
      else (Inr (last msgs), msgs))"
  by pat_completeness auto
termination
  by (relation "measure length") auto

declare skip_terminated.simps [simp del]

text \<open>\<open>raise_db_exception\<close> always raises: the result is the exception and the session.\<close>

definition raise_db_exception :: "int set \<Rightarrow> int set \<Rightarrow> tds_session \<Rightarrow> error \<times> tds_session" where
  "raise_db_exception prog_errors integrity_errors s =
     (if messages s = []
      then (TdsError (''Request failed, server didn'' @ [CHR 0x27] @ ''t send error message''), s)
      else case skip_terminated (messages s) of
             (Inl e, msgs) \<Rightarrow> (e, s\<lparr>messages := msgs\<rparr>)
           | (Inr msg, msgs) \<Rightarrow>
               (create_exception_by_message prog_errors integrity_errors msg
                  (Some (join_space (map message msgs))),
                s\<lparr>messages := msgs\<rparr>))"

subsection \<open>\<open>process_end\<close>\<close>

text \<open>
  Modelled from the spec: the token markers and the DONE status bits of \<open>tds_base\<close>
  (0xFD/0xFE/0xFF for DONE/DONEPROC/DONEINPROC; MORE=0x01, ERROR=0x02, COUNT=0x10,
  CANCELLED=0x20).
\<close>

definition TDS_DONE_TOKEN :: nat where "TDS_DONE_TOKEN = 0xFD"
definition TDS_DONEPROC_TOKEN :: nat where "TDS_DONEPROC_TOKEN = 0xFE"
definition TDS_DONEINPROC_TOKEN :: nat where "TDS_DONEINPROC_TOKEN = 0xFF"

definition TDS_DONE_MORE_RESULTS :: nat where "TDS_DONE_MORE_RESULTS = 0x01"
definition TDS_DONE_ERROR :: nat where "TDS_DONE_ERROR = 0x02"
definition TDS_DONE_COUNT :: nat where "TDS_DONE_COUNT = 0x10"
definition TDS_DONE_CANCELLED :: nat where "TDS_DONE_CANCELLED = 0x20"

text \<open>
  The handlers read their token through \<open>_TdsReader\<close> helpers built on \<open>readall\<close> and
  \<open>readall_fast\<close> of \<open>tds_base\<close> (not among the sources). A handler is modelled from
  the point where its reads have returned: the decoded fields are its argument. For
  DONE these are the status (u16), the current command (u16) and the row count.
\<close>

record done_token =
  dt_status :: nat
  dt_cur_cmd :: nat
  dt_rowcount :: int

definition process_end ::
  "int set \<Rightarrow> int set \<Rightarrow> nat \<Rightarrow> done_token \<Rightarrow> tds_session \<Rightarrow> (error + unit) \<times> tds_session" where
  "process_end prog_errors integrity_errors marker_id tok s0 =
     (let s1 = s0\<lparr>end_marker := marker_id, more_rows := False\<rparr>;
          status = dt_status tok;
          more_results' = (status AND TDS_DONE_MORE_RESULTS \<noteq> 0);
          was_cancelled = (status AND TDS_DONE_CANCELLED \<noteq> 0);
          done_count_valid = (status AND TDS_DONE_COUNT \<noteq> 0);
          s2 = (case res_info s1 of
                  None \<Rightarrow> s1
                | Some ri \<Rightarrow> s1\<lparr>res_info := Some (ri\<lparr>more_results := more_results'\<rparr>)\<rparr>);
          rows_affected' = dt_rowcount tok
      in if marker_id \<notin> {TDS_DONE_TOKEN, TDS_DONEINPROC_TOKEN, TDS_DONEPROC_TOKEN}
         then (Inl KeyError, s2)
         else
           (case (if was_cancelled \<or> (\<not> more_results' \<and> \<not> in_cancel s2)
                  then set_state TDS_IDLE (s2\<lparr>in_cancel := False\<rparr>)
                  else (Inr (state s2), s2)) of
              (Inl e, s3) \<Rightarrow> (Inl e, s3)
            | (Inr st, s3) \<Rightarrow>
                (let s4 = s3\<lparr>rows_affected := (if done_count_valid then rows_affected'
                                                 else - 1)\<rparr>;
                     s5 = s4\<lparr>done_flags := status\<rparr>
                 in if done_flags s5 AND TDS_DONE_ERROR \<noteq> 0 \<and> \<not> was_cancelled
                       \<and> \<not> in_cancel s5
                    then (case raise_db_exception prog_errors integrity_errors s5 of
                            (e, s6) \<Rightarrow> (Inl e, s6))
                    else (Inr (), s5))))"

subsection \<open>\<open>put_cancel\<close> and \<open>_TdsReader._read_packet\<close>\<close>

text \<open>Modelled from the spec: \<open>PacketType.CANCEL\<close> of \<open>tds_base\<close> (CANCEL=6).\<close>

definition PacketType_CANCEL :: nat where "PacketType_CANCEL = 6"

definition put_cancel :: "tds_session \<Rightarrow> (error + unit) \<times> tds_session" where
  "put_cancel s =
     (case flush (begin_packet PacketType_CANCEL (writer s)) of
        (Inl e, w') \<Rightarrow> (Inl e, s\<lparr>writer := w'\<rparr>)
      | (Inr u, w') \<Rightarrow> (Inr (), s\<lparr>writer := w', in_cancel := True\<rparr>))"

text \<open>
  \<open>recv_into(view, nbytes)\<close> for \<open>nbytes > 0\<close>, as a socket does it: \<open>ValueError\<close> when
  the view has room for fewer than \<open>nbytes\<close> bytes, otherwise at most \<open>nbytes\<close> bytes of
  what has arrived. The result is what was received and the rest of the script.
\<close>

definition recv_into ::
  "nat \<Rightarrow> nat \<Rightarrow> recv_event list \<Rightarrow> (error + byte list) \<times> recv_event list" where
  "recv_into room nbytes evs =
     (if room < nbytes then (Inl ValueError, evs)
      else case evs of
        [] \<Rightarrow> (Inr [], [])
      | TimedOut # rest \<Rightarrow> (Inl TimeoutError, rest)
      | Received bs # rest \<Rightarrow>
          if length bs \<le> nbytes then (Inr bs, rest)
          else (Inr (take nbytes bs), Received (drop nbytes bs) # rest))"

text \<open>The received bytes land in the buffer at \<open>pos\<close> (the view is \<open>self._bufview[pos:]\<close>).\<close>

definition store_at :: "nat \<Rightarrow> byte list \<Rightarrow> byte list \<Rightarrow> byte list" where
  "store_at pos bs buf = take pos buf @ bs @ drop (pos + length bs) buf"

text \<open>The first loop of \<open>_read_packet\<close>: \<open>while pos < _header.size\<close>.\<close>

function read_header_loop :: "nat \<Rightarrow> tds_reader \<Rightarrow> (error + nat) \<times> tds_reader" where
  "read_header_loop pos r =
     (if pos < 8 then
        (case recv_into (length (r_buf r) - pos) (8 - pos) (r_transport r) of
           (Inl e, evs) \<Rightarrow> (Inl e, r\<lparr>r_transport := evs\<rparr>)
         | (Inr bs, evs) \<Rightarrow>
             if length bs = 0 then (Inl ClosedConnectionError, r\<lparr>r_transport := evs\<rparr>)
             else read_header_loop (pos + length bs)
                    (r\<lparr>r_buf := store_at pos bs (r_buf r), r_transport := evs\<rparr>))
      else (Inr pos, r))"
  by pat_completeness auto
termination
  by (relation "measure (\<lambda>(pos, r). 8 - pos)") (auto simp: neq_Nil_conv)

declare read_header_loop.simps [simp del]

text \<open>The second loop: \<open>while pos < self._size\<close>. It stands outside the \<open>try\<close>.\<close>

function read_body_loop :: "nat \<Rightarrow> tds_reader \<Rightarrow> (error + unit) \<times> tds_reader" where
  "read_body_loop pos r =
     (if pos < r_size r then
        (case recv_into (length (r_buf r) - pos) (r_size r - pos) (r_transport r) of
           (Inl e, evs) \<Rightarrow> (Inl e, r\<lparr>r_transport := evs\<rparr>)
         | (Inr bs, evs) \<Rightarrow>
             if length bs = 0 then (Inl ClosedConnectionError, r\<lparr>r_transport := evs\<rparr>)
             else read_body_loop (pos + length bs)
                    (r\<lparr>r_buf := store_at pos bs (r_buf r), r_transport := evs,
                       r_have := r_have r + length bs\<rparr>))
      else (Inr (), r))"
  by pat_completeness auto
termination
  by (relation "measure (\<lambda>(pos, r). r_size r - pos)") (auto simp: neq_Nil_conv)

declare read_body_loop.simps [simp del]

definition be16 :: "byte \<Rightarrow> byte \<Rightarrow> nat" where
  "be16 hi lo = unat hi * 256 + unat lo"

text \<open>
  \<open>_read_packet\<close>. Only the header loop is inside \<open>try ... except TimeoutError\<close>, whose
  handler calls \<open>put_cancel\<close> and re-raises. \<open>_header.unpack_from\<close> yields type, status,
  size, spid and the packet number, which is dropped.
\<close>

definition read_packet :: "tds_session \<Rightarrow> (error + unit) \<times> tds_session" where
  "read_packet s =
     (case read_header_loop 0 (reader s) of
        (Inl e, r1) \<Rightarrow>
          if e = TimeoutError then
            (case put_cancel (s\<lparr>reader := r1\<rparr>) of
               (Inl e', s') \<Rightarrow> (Inl e', s')
             | (Inr u, s') \<Rightarrow> (Inl TimeoutError, s'))
          else (Inl e, s\<lparr>reader := r1\<rparr>)
      | (Inr pos, r1) \<Rightarrow>
          (let b = r_buf r1 in
           if length b < 8 then (Inl StructError, s\<lparr>reader := r1\<lparr>r_pos := 8\<rparr>\<rparr>)
           else
             (let r2 = r1\<lparr>r_pos := 8, r_type := Some (unat (b ! 0)),
                        r_status := Some (unat (b ! 1)), r_size := be16 (b ! 2) (b ! 3),
                        r_have := pos\<rparr>;
                  s2 = s\<lparr>spid := be16 (b ! 4) (b ! 5)\<rparr>
              in case read_body_loop pos r2 of
                   (out, r3) \<Rightarrow> (out, s2\<lparr>reader := r3\<rparr>))))"

subsection \<open>\<open>process_env_chg\<close>\<close>

text \<open>
  \<open>int(newval)\<close> on a string of 8-bit characters: surrounding white space is
  stripped, one sign may lead, and the digits may be grouped by single underscores.
  Anything else raises \<open>ValueError\<close>.
\<close>

definition is_py_space :: "char \<Rightarrow> bool" where
  "is_py_space c =
     (let n = (of_char c :: nat)
      in (9 \<le> n \<and> n \<le> 13) \<or> (28 \<le> n \<and> n \<le> 32) \<or> n = 133 \<or> n = 160)"

definition digit_of :: "char \<Rightarrow> nat option" where
  "digit_of c =
     (let n = (of_char c :: nat) in if 48 \<le> n \<and> n \<le> 57 then Some (n - 48) else None)"

fun py_digits :: "nat \<Rightarrow> bool \<Rightarrow> string \<Rightarrow> nat option" where
  "py_digits acc prev_digit [] = (if prev_digit then Some acc else None)"
| "py_digits acc prev_digit (c # cs) =
     (if c = CHR ''_'' then (if prev_digit then py_digits acc False cs else None)
      else case digit_of c of
             None \<Rightarrow> None
           | Some d \<Rightarrow> py_digits (10 * acc + d) True cs)"

definition py_int :: "string \<Rightarrow> error + int" where
  "py_int str =
     (let t = dropWhile is_py_space (rev (dropWhile is_py_space (rev str)));
          signed = (case t of
                      [] \<Rightarrow> None
                    | c # cs \<Rightarrow>
                        if c = CHR ''-'' then map_option (\<lambda>n. - int n) (py_digits 0 False cs)
                        else if c = CHR ''+'' then map_option int (py_digits 0 False cs)
                        else map_option int (py_digits 0 False t))
      in case signed of None \<Rightarrow> Inl ValueError | Some v \<Rightarrow> Inr v)"



subsection \<open>\<open>parse_prelogin\<close>\<close>

text \<open>
  \<open>PreLoginToken\<close> and \<open>PreLoginEnc\<close> are enumerations of \<open>tds_base\<close>, which is not
  among the sources: their numeric values are parameters.
\<close>

record prelogin_token_ids =
  tok_VERSION :: nat
  tok_ENCRYPTION :: nat
  tok_INSTOPT :: nat
  tok_MARS :: nat
  tok_TERMINATOR :: nat

record prelogin_enc_ids =
  ENCRYPT_OFF :: nat
  ENCRYPT_ON :: nat
  ENCRYPT_REQ :: nat
  ENCRYPT_NOT_SUP :: nat

text \<open>The two fields of \<open>_TdsLogin\<close> that \<open>parse_prelogin\<close> uses.\<close>

record tds_login =
  enc_flag :: nat
  server_enc_flag :: nat

text \<open>\<open>bad_stream\<close> closes the transport and raises \<open>InterfaceError\<close>.\<close>

definition bad_stream :: "string \<Rightarrow> tds_session \<Rightarrow> error \<times> tds_session" where
  "bad_stream msg s = (InterfaceError msg, s\<lparr>transport_closed := True\<rparr>)"

function show_nat :: "nat \<Rightarrow> string" where
  "show_nat n =
     (if n < 10 then [char_of (48 + n)]
      else show_nat (n div 10) @ [char_of (48 + n mod 10)])"
  by pat_completeness auto
termination
  by (relation "measure id") auto

declare show_nat.simps [simp del]

text \<open>
  The option table loop, from index \<open>i\<close> with the encryption flag found so far.
  \<open>unpack_from\<close> raises \<open>struct.error\<close> when the bytes it needs lie beyond the end.
\<close>

function prelogin_options ::
  "prelogin_token_ids \<Rightarrow> byte list \<Rightarrow> nat \<Rightarrow> nat \<Rightarrow> tds_session \<Rightarrow> (error + nat) \<times> tds_session" where
  "prelogin_options T p i crypt_flag s =
     (let psize = length p in
      if i \<ge> psize then
        (case bad_stream ''Invalid psize of PRELOGIN structure'' s of (e, s') \<Rightarrow> (Inl e, s'))
      else
        (let type_id = unat (p ! i) in
         if type_id = tok_TERMINATOR T then (Inr crypt_flag, s)
         else if i + 4 > psize then
           (case bad_stream ''Invalid psize of PRELOGIN structure'' s of (e, s') \<Rightarrow> (Inl e, s'))
         else if i + 5 > psize then (Inl StructError, s)
         else
           (let off = be16 (p ! (i + 1)) (p ! (i + 2));
                l = be16 (p ! (i + 3)) (p ! (i + 4))
            in if off > psize \<or> off + l > psize then
                 (case bad_stream ''Invalid offset in PRELOGIN structure'' s of
                    (e, s') \<Rightarrow> (Inl e, s'))
               else if type_id = tok_VERSION T then
                 (if off + 6 > psize then (Inl StructError, s)
                  else prelogin_options T p (i + 5) crypt_flag
                         (s\<lparr>conn := (conn s)\<lparr>server_library_version :=
                              Some (be16 (p ! off) (p ! (off + 1)) * 65536
                                      + be16 (p ! (off + 2)) (p ! (off + 3)),
                                    be16 (p ! (off + 4)) (p ! (off + 5)))\<rparr>\<rparr>))
               else if type_id = tok_ENCRYPTION T \<and> l \<ge> 1 then
                 (if off + 1 > psize then (Inl StructError, s)
                  else prelogin_options T p (i + 5) (unat (p ! off)) s)
               else if type_id = tok_MARS T then
                 (if off + 1 > psize then (Inl StructError, s)
                  else prelogin_options T p (i + 5) crypt_flag
                         (s\<lparr>conn := (conn s)\<lparr>mars_enabled := (p ! off \<noteq> 0)\<rparr>\<rparr>))
               else prelogin_options T p (i + 5) crypt_flag s)))"
  by pat_completeness auto
termination
  by (relation "measure (\<lambda>(T, p, i, crypt_flag, s). length p - i)") auto

declare prelogin_options.simps [simp del]

text \<open>
  \<open>parse_prelogin\<close>: the loop starts with \<open>crypt_flag = 2\<close>; the flag found is stored in
  \<open>login.server_enc_flag\<close> and decides the branch.
\<close>

definition parse_prelogin ::
  "prelogin_token_ids \<Rightarrow> prelogin_enc_ids \<Rightarrow> byte list \<Rightarrow> tds_login \<Rightarrow> tds_session
     \<Rightarrow> (error + unit) \<times> tds_login \<times> tds_session" where
  "parse_prelogin T E octets login s =
     (case prelogin_options T octets 0 2 s of
        (Inl e, s1) \<Rightarrow> (Inl e, login, s1)
      | (Inr crypt_flag, s1) \<Rightarrow>
          (let login1 = login\<lparr>server_enc_flag := crypt_flag\<rparr> in
           if crypt_flag = ENCRYPT_OFF E then
             (if enc_flag login1 = ENCRYPT_ON E then
                (case bad_stream ''Server returned unexpected ENCRYPT_ON value'' s1 of
                   (e, s2) \<Rightarrow> (Inl e, login1, s2))
              else (Inr (), login1, s1\<lparr>tls_established := True\<rparr>))
           else if crypt_flag = ENCRYPT_ON E then
             (Inr (), login1, s1\<lparr>tls_established := True\<rparr>)
           else if crypt_flag = ENCRYPT_REQ E then
             (if enc_flag login1 = ENCRYPT_NOT_SUP E then
                (Inl (TdsError (''Client does not have encryption enabled but it is ''
                         @ ''required by server, enable encryption and try connecting again'')),
                 login1, s1)
              else (Inr (), login1, s1\<lparr>tls_established := True\<rparr>))
           else if crypt_flag = ENCRYPT_NOT_SUP E then
             (if enc_flag login1 = ENCRYPT_ON E then
                (Inl (TdsError ''You requested encryption but it is not supported by server''),
                 login1, s1)
              else (Inr (), login1, s1))
           else
             (case bad_stream (''Unexpected value of enc_flag returned by server: ''
                                @ show_nat crypt_flag) s1 of
                (e, s2) \<Rightarrow> (Inl e, login1, s2))))"

text \<open>
  What a result of \<open>parse_prelogin\<close> means for the channel. \<open>_TdsSocket.login\<close> sends
  LOGIN7 next and then calls \<open>tls.revert_to_clear\<close> exactly when
  \<open>login.server_enc_flag == PreLoginEnc.ENCRYPT_OFF\<close>: an established channel with
  that flag encrypts the login only.
\<close>

datatype encryption_outcome =
  EncryptLoginOnly | EncryptEntireChannel | NoEncryption | EncryptionError

definition encryption_outcome ::
  "prelogin_enc_ids \<Rightarrow> (error + unit) \<times> tds_login \<times> tds_session \<Rightarrow> encryption_outcome" where
  "encryption_outcome E res =
     (case res of
        (Inl e, login, s) \<Rightarrow> EncryptionError
      | (Inr u, login, s) \<Rightarrow>
          if tls_established s
          then (if server_enc_flag login = ENCRYPT_OFF E then EncryptLoginOnly
                else EncryptEntireChannel)
          else NoEncryption)"

datatype enc_flag_name = FlagOff | FlagOn | FlagReq | FlagNotSup

fun enc_code :: "prelogin_enc_ids \<Rightarrow> enc_flag_name \<Rightarrow> nat" where
  "enc_code E FlagOff = ENCRYPT_OFF E"
| "enc_code E FlagOn = ENCRYPT_ON E"
| "enc_code E FlagReq = ENCRYPT_REQ E"
| "enc_code E FlagNotSup = ENCRYPT_NOT_SUP E"

text \<open>The matrix of the spec, by server flag and client flag.\<close>

fun documented_encryption_matrix :: "enc_flag_name \<Rightarrow> enc_flag_name \<Rightarrow> encryption_outcome" where
  "documented_encryption_matrix FlagOff FlagOff = EncryptLoginOnly"
| "documented_encryption_matrix FlagOff FlagOn = EncryptionError"
| "documented_encryption_matrix FlagOff FlagReq = EncryptLoginOnly"
| "documented_encryption_matrix FlagOff FlagNotSup = NoEncryption"
| "documented_encryption_matrix FlagOn FlagNotSup = EncryptionError"
| "documented_encryption_matrix FlagOn client = EncryptEntireChannel"
| "documented_encryption_matrix FlagReq FlagNotSup = EncryptionError"
| "documented_encryption_matrix FlagReq client = EncryptEntireChannel"
| "documented_encryption_matrix FlagNotSup FlagNotSup = NoEncryption"
| "documented_encryption_matrix FlagNotSup client = EncryptionError"

text \<open>The matrix with the four cells in which the code differs.\<close>

fun amended_encryption_matrix :: "enc_flag_name \<Rightarrow> enc_flag_name \<Rightarrow> encryption_outcome" where
  "amended_encryption_matrix FlagOff FlagOn = EncryptionError"
| "amended_encryption_matrix FlagOff client = EncryptLoginOnly"
| "amended_encryption_matrix FlagOn client = EncryptEntireChannel"
| "amended_encryption_matrix FlagReq FlagNotSup = EncryptionError"
| "amended_encryption_matrix FlagReq client = EncryptEntireChannel"
| "amended_encryption_matrix FlagNotSup FlagOn = EncryptionError"
| "amended_encryption_matrix FlagNotSup client = NoEncryption"

subsection \<open>\<open>tds7_crypt_pass\<close>\<close>

text \<open>
  The body of the loop, on Python's integers, and the store into the \<open>bytearray\<close>,
  which raises \<open>ValueError\<close> for a value outside \<open>range(256)\<close>.
\<close>

definition tds7_crypt_byte :: "int \<Rightarrow> int" where
  "tds7_crypt_byte ch = ((push_bit 4 ch AND 0xff) OR drop_bit 4 ch) XOR 0xA5"

fun crypt_bytes :: "int list \<Rightarrow> error + int list" where
  "crypt_bytes [] = Inr []"
| "crypt_bytes (ch # rest) =
     (let v = tds7_crypt_byte ch in
      if 0 \<le> v \<and> v < 256
      then (case crypt_bytes rest of Inl e \<Rightarrow> Inl e | Inr vs \<Rightarrow> Inr (v # vs))
      else Inl ValueError)"

text \<open>
  \<open>ucs2_codec\<close> belongs to \<open>pytds.collate\<close>, which is not among the sources: the
  encoder is a parameter.
\<close>

definition tds7_crypt_pass :: "('s \<Rightarrow> int list) \<Rightarrow> 's \<Rightarrow> error + int list" where
  "tds7_crypt_pass ucs2_encode password = crypt_bytes (ucs2_encode password)"

text \<open>
  The inverse as the spec words it: XOR with 0xA5, then swap the nibbles.
\<close>

definition swap_nibbles :: "int \<Rightarrow> int" where
  "swap_nibbles x = (push_bit 4 x AND 0xff) OR drop_bit 4 x"

definition tds7_decrypt_byte_spec :: "int \<Rightarrow> int" where
  "tds7_decrypt_byte_spec c = swap_nibbles (c XOR 0xA5)"

text \<open>
  Modelled from the spec: UCS-2-LE, two bytes per 16-bit code unit, low byte first
  (the codec \<open>ucs2_codec\<close> of \<open>pytds.collate\<close>).
\<close>

definition ucs2_le_encode :: "nat list \<Rightarrow> int list" where
  "ucs2_le_encode units = concat (map (\<lambda>u. [int (u mod 256), int (u div 256 mod 256)]) units)"

subsection \<open>The constructors\<close>

text \<open>
  \<open>_TdsWriter.__init__\<close>, \<open>_TdsReader.__init__\<close>, \<open>_TdsSocket.__init__\<close> and
  \<open>_TdsSession.__init__\<close>, for a writer buffer of \<open>bufsize\<close> bytes and a transport
  whose inbound script is \<open>script\<close>.
\<close>

definition new_writer :: "nat \<Rightarrow> tds_writer" where
  "new_writer bsize =
     \<lparr>w_pos = 0, w_buf = replicate bsize 0, w_packet_no = 0, w_type = 0, w_sent = []\<rparr>"

definition new_reader :: "recv_event list \<Rightarrow> tds_reader" where
  "new_reader script =
     \<lparr>r_buf = replicate 4096 0, r_pos = 4096, r_have = 0, r_size = 0,
      r_type = None, r_status = None, r_transport = script\<rparr>"

definition new_socket :: tds_socket where
  "new_socket =
     \<lparr>tds72_transaction = 0, env_database = None, env_language = None, route = None,
      mars_enabled = False, server_library_version = None\<rparr>"

definition new_session :: "nat \<Rightarrow> recv_event list \<Rightarrow> tds_session" where
  "new_session bsize script =
     \<lparr>state = TDS_IDLE, in_cancel = False, messages = [], rows_affected = - 1,
      internal_sp_called = 0, more_rows = False, done_flags = 0, end_marker = 0,
      res_info = None, spid = 0, writer = new_writer bsize, reader = new_reader script,
      conn = new_socket, transport_closed = False, tls_established = False\<rparr>"

subsection \<open>Notions used in the proofs about the writer\<close>

text \<open>
  \<open>pending\<close>: the payload bytes waiting in the buffer. \<open>writer_inv\<close>: the position is
  past the header and, unless the buffer cannot even hold a header, inside the
  buffer. \<open>emitted w w' bs\<close>: going from \<open>w\<close> to \<open>w'\<close> sent only non-final packets and
  added the bytes \<open>bs\<close> to what was sent or is pending. \<open>writer_ok\<close>: a writer whose
  buffer holds a header and more, whose length fits the 16-bit length field and whose
  packet type and number fit a byte.
\<close>

definition pending :: "tds_writer \<Rightarrow> byte list" where
  "pending w = drop 8 (take (w_pos w) (w_buf w))"

definition writer_inv :: "tds_writer \<Rightarrow> bool" where
  "writer_inv w = (8 \<le> w_pos w \<and> (w_pos w \<le> length (w_buf w) \<or> length (w_buf w) < 8))"

definition emitted :: "tds_writer \<Rightarrow> tds_writer \<Rightarrow> byte list \<Rightarrow> bool" where
  "emitted w w' bs =
     (writer_inv w' \<and> length (w_buf w') = length (w_buf w) \<and> w_type w' = w_type w \<and>
      (\<exists>new. w_sent w' = w_sent w @ new \<and> list_all (\<lambda>p. \<not> packet_final p) new \<and>
             concat (map packet_payload new) @ pending w' = pending w @ bs))"

definition writer_ok :: "tds_writer \<Rightarrow> bool" where
  "writer_ok w = (8 < length (w_buf w) \<and> length (w_buf w) \<le> 65535 \<and> 8 \<le> w_pos w \<and>
     w_pos w \<le> length (w_buf w) \<and> w_type w < 256 \<and> w_packet_no w < 256)"

subsection \<open>Notions and data used in the proofs about the messages\<close>

text \<open>
  \<open>kept_messages\<close>: the messages without the trailing run of messages 3621. Three
  sample messages: an error that is in neither set of the examples, a primary key
  violation, and message 3621.
\<close>

definition kept_messages :: "tds_message list \<Rightarrow> tds_message list" where
  "kept_messages msgs = rev (dropWhile (\<lambda>m. msgno m = 3621) (rev msgs))"

definition msg_a :: tds_message where
  "msg_a = \<lparr>marker = 0xAA, msgno = 50000, msg_state = 1, severity = 16, message = ''first'',
            server = ''srv'', proc_name = [], line_number = 1\<rparr>"


definition msg_terminated :: tds_message where
  "msg_terminated = \<lparr>marker = 0xAA, msgno = 3621, msg_state = 0, severity = 0,
            message = ''The statement has been terminated.'',
            server = ''srv'', proc_name = [], line_number = 2\<rparr>"

subsection \<open>Notions and data used in the proofs about the reader and the handshake\<close>

text \<open>
  \<open>header_unpacked\<close>: the reader once \<open>_read_packet\<close> has unpacked the header that
  the first loop read up to \<open>pos\<close>. \<open>cancel_packet\<close>: the packet that \<open>put_cancel\<close> sends,
  a header of type CANCEL with the final bit, length 8 and the given packet number.
\<close>

definition header_unpacked :: "nat \<Rightarrow> tds_reader \<Rightarrow> tds_reader" where
  "header_unpacked pos r =
     r\<lparr>r_pos := 8, r_type := Some (unat (r_buf r ! 0)), r_status := Some (unat (r_buf r ! 1)),
       r_size := be16 (r_buf r ! 2) (r_buf r ! 3), r_have := pos\<rparr>"

definition cancel_packet :: "nat \<Rightarrow> byte list" where
  "cancel_packet pkt = [6, 1, 0, 8, 0, 0, of_nat pkt, 0]"

text \<open>
  Option ids for the examples (the terminator 0xFF as the spec gives it), and a
  PRELOGIN payload whose option table holds the ENCRYPTION option alone, with the
  given flag byte.
\<close>

definition sample_token_ids :: prelogin_token_ids where
  "sample_token_ids =
     \<lparr>tok_VERSION = 0, tok_ENCRYPTION = 1, tok_INSTOPT = 2, tok_MARS = 4,
      tok_TERMINATOR = 0xFF\<rparr>"

definition prelogin_reply :: "byte \<Rightarrow> byte list" where
  "prelogin_reply flag = [1, 0, 6, 0, 1, 0xFF, flag]"

text \<open>
  Modelled from the spec: the PRELOGIN encryption values of \<open>PreLoginEnc\<close> in
  \<open>tds_base\<close>, which is not among the sources, as the spec lists them (OFF=0, ON=1,
  REQ=2, NOT_SUP=3).
\<close>

definition spec_enc_ids :: prelogin_enc_ids where
  "spec_enc_ids = \<lparr>ENCRYPT_OFF = 0, ENCRYPT_ON = 1, ENCRYPT_REQ = 2, ENCRYPT_NOT_SUP = 3\<rparr>"

text \<open>
  The other numbering that the examples use: REQ and NOT_SUP exchanged, which is what
  the comment at the default of \<open>parse_prelogin\<close> suggests (\<open>crypt_flag = 2\<close>, "no
  encryption"). \<open>reply_with\<close> and \<open>login_with\<close>: a reply carrying a server flag, and
  a login carrying a client flag, under a numbering.
\<close>

definition wire_enc_ids :: prelogin_enc_ids where
  "wire_enc_ids = \<lparr>ENCRYPT_OFF = 0, ENCRYPT_ON = 1, ENCRYPT_REQ = 3, ENCRYPT_NOT_SUP = 2\<rparr>"

definition reply_with :: "prelogin_enc_ids \<Rightarrow> enc_flag_name \<Rightarrow> byte list" where
  "reply_with E srv = prelogin_reply (of_nat (enc_code E srv))"

definition login_with :: "prelogin_enc_ids \<Rightarrow> enc_flag_name \<Rightarrow> tds_login" where
  "login_with E cli = \<lparr>enc_flag = enc_code E cli, server_enc_flag = ENCRYPT_NOT_SUP E\<rparr>"


section \<open>Properties\<close>

lemma header_pack_length:
  "header_pack ty status len sp pkt = Inr h \<Longrightarrow> length h = 8"
  by (auto simp: header_pack_def split: if_splits)

subsection \<open>The writer: framing of a logical message\<close>

lemma header_pack_status:
  "header_pack ty status len sp pkt = Inr h \<Longrightarrow> h ! 1 = of_nat status \<and> h ! 6 = of_nat pkt"
  by (auto simp: header_pack_def split: if_splits)

lemma write_packet_ok:
  assumes "write_packet final w = (Inr (), w')" and "8 \<le> w_pos w"
  shows "8 \<le> length (w_buf w)" "length (w_buf w') = length (w_buf w)" "w_pos w' = 8"
    "w_type w' = w_type w" "w_packet_no w' = (w_packet_no w + 1) mod 256"
    "\<exists>p. w_sent w' = w_sent w @ [p] \<and> packet_final p = final \<and> packet_payload p = pending w
        \<and> packet_number p = w_packet_no w"
proof -
  from assms(1) obtain h where h: "header_pack (w_type w) (if final then 1 else 0) (w_pos w) 0 (w_packet_no w) = Inr h"
    and len: "8 \<le> length (w_buf w)"
    and w': "w' = w\<lparr>w_buf := h @ drop 8 (w_buf w), w_packet_no := (w_packet_no w + 1) mod 256,
             w_sent := w_sent w @ [take (w_pos w) (h @ drop 8 (w_buf w))], w_pos := 8\<rparr>"
    by (auto simp: write_packet_def header_pack_into_def Let_def split: if_splits sum.splits)
  have hl: "length h = 8" using h by (rule header_pack_length)
  have h1: "h ! 1 = of_nat (if final then 1 else 0)" and h6: "h ! 6 = of_nat (w_packet_no w)"
    using header_pack_status[OF h] by auto
  have pk: "w_packet_no w < 256" using h by (auto simp: header_pack_def split: if_splits)
  show "8 \<le> length (w_buf w)" by fact
  show "length (w_buf w') = length (w_buf w)" using len hl by (simp add: w')
  show "w_pos w' = 8" by (simp add: w')
  show "w_type w' = w_type w" by (simp add: w')
  show "w_packet_no w' = (w_packet_no w + 1) mod 256" by (simp add: w')
  let ?p = "take (w_pos w) (h @ drop 8 (w_buf w))"
  have a: "w_sent w' = w_sent w @ [?p]" by (simp add: w')
  have b: "packet_final ?p = final"
    using assms(2) len hl h1 by (auto simp: packet_final_def nth_append)
  have c: "packet_payload ?p = pending w"
    using assms(2) hl by (simp add: packet_payload_def pending_def drop_take)
  have d: "packet_number ?p = w_packet_no w"
    using assms(2) len hl h6 pk by (simp add: packet_number_def nth_append unat_of_nat)
  from a b c d show "\<exists>p. w_sent w' = w_sent w @ [p] \<and> packet_final p = final \<and> packet_payload p = pending w
        \<and> packet_number p = w_packet_no w" by blast
qed


lemma emitted_refl: "writer_inv w \<Longrightarrow> emitted w w []"
  by (simp add: emitted_def)

lemma emitted_trans:
  assumes "emitted w w1 a" "emitted w1 w2 b"
  shows "emitted w w2 (a @ b)"
proof -
  from assms(1) obtain n1 where n1: "w_sent w1 = w_sent w @ n1" "list_all (\<lambda>p. \<not> packet_final p) n1"
    "concat (map packet_payload n1) @ pending w1 = pending w @ a"
    by (auto simp: emitted_def)
  from assms(2) obtain n2 where n2: "w_sent w2 = w_sent w1 @ n2" "list_all (\<lambda>p. \<not> packet_final p) n2"
    "concat (map packet_payload n2) @ pending w2 = pending w1 @ b"
    by (auto simp: emitted_def)
  have "concat (map packet_payload (n1 @ n2)) @ pending w2
        = concat (map packet_payload n1) @ (pending w1 @ b)"
    using n2(3) by simp
  also have "\<dots> = pending w @ a @ b" using n1(3) by (metis append.assoc)
  finally have "concat (map packet_payload (n1 @ n2)) @ pending w2 = pending w @ a @ b" .
  moreover have "w_sent w2 = w_sent w @ (n1 @ n2)" using n1(1) n2(1) by simp
  moreover have "list_all (\<lambda>p. \<not> packet_final p) (n1 @ n2)" using n1(2) n2(2) by simp
  ultimately have "\<exists>new. w_sent w2 = w_sent w @ new \<and> list_all (\<lambda>p. \<not> packet_final p) new \<and>
             concat (map packet_payload new) @ pending w2 = pending w @ a @ b" by blast
  then show ?thesis using assms by (simp add: emitted_def)
qed

lemma emitted_packet:
  assumes wp: "write_packet False w = (Inr (), w1)" and inv: "writer_inv w"
    and full: "length (w_buf w) \<le> w_pos w"
  shows "emitted w w1 []"
proof -
  from inv have p8: "8 \<le> w_pos w" by (simp add: writer_inv_def)
  note ok = write_packet_ok[OF wp p8]
  from ok(6) obtain p where p: "w_sent w1 = w_sent w @ [p]" "packet_final p = False"
    "packet_payload p = pending w" by blast
  have "pending w1 = []" using ok(3) by (simp add: pending_def)
  moreover have "writer_inv w1" using ok by (simp add: writer_inv_def)
  ultimately show ?thesis using p ok by (simp add: emitted_def)
qed

lemma emitted_copy:
  assumes inv: "writer_inv w" and room: "w_pos w < length (w_buf w)"
    and n: "n \<le> length (w_buf w) - w_pos w" "n \<le> length data - off"
  shows "emitted w (w\<lparr>w_buf := take (w_pos w) (w_buf w) @ take n (drop off data)
                          @ drop (w_pos w + n) (w_buf w),
                 w_pos := w_pos w + n\<rparr>) (take n (drop off data))"
proof -
  from inv have p8: "8 \<le> w_pos w" by (simp add: writer_inv_def)
  have l: "length (take n (drop off data)) = n" using n by simp
  have "pending (w\<lparr>w_buf := take (w_pos w) (w_buf w) @ take n (drop off data)
                          @ drop (w_pos w + n) (w_buf w),
                 w_pos := w_pos w + n\<rparr>) = pending w @ take n (drop off data)"
    using p8 room n l by (simp add: pending_def min_def)
  then show ?thesis using p8 room n l by (simp add: emitted_def writer_inv_def)
qed

lemma write_loop_partial:
  "write_loop data off w = Some r \<Longrightarrow>
   (\<forall>w'. r = (Inr (), w') \<longrightarrow> writer_inv w \<longrightarrow> emitted w w' (drop off data))"
proof (induction data off w r rule: write_loop.raw_induct[rotated, consumes 1])
  case (1 f data off w r)
  show ?case
  proof (intro allI impI)
    fix w' assume r: "r = (Inr (), w')" and inv: "writer_inv w"
    show "emitted w w' (drop off data)"
    proof (cases "off < length data")
      case False
      with 1(2) r have "w' = w" by simp
      with False inv show ?thesis by (simp add: emitted_refl)
    next
      case True
      show ?thesis
      proof (cases "int (length (w_buf w)) - int (w_pos w) \<le> 0")
        case full: True
        with True 1(2) r obtain w1 where wp: "write_packet False w = (Inr (), w1)"
          and rec: "f data off w1 = Some (Inr (), w')"
          by (auto simp: Let_def split: prod.splits sum.splits)
        have e1: "emitted w w1 []" using emitted_packet[OF wp inv] full by simp
        then have "writer_inv w1" by (simp add: emitted_def)
        with 1(1)[OF rec] have "emitted w1 w' (drop off data)" by simp
        with emitted_trans[OF e1] show ?thesis by fastforce
      next
        case room: False
        define n where "n = min (nat (int (length (w_buf w)) - int (w_pos w))) (length data - off)"
        define w1 where "w1 = w\<lparr>w_buf := take (w_pos w) (w_buf w) @ take n (drop off data)
                          @ drop (w_pos w + n) (w_buf w), w_pos := w_pos w + n\<rparr>"
        from True room 1(2) r have rec: "f data (off + n) w1 = Some (Inr (), w')"
          by (simp add: Let_def n_def w1_def)
        have e1: "emitted w w1 (take n (drop off data))"
          unfolding w1_def using room by (intro emitted_copy[OF inv]) (auto simp: n_def)
        then have "writer_inv w1" by (simp add: emitted_def)
        with 1(1)[OF rec] have "emitted w1 w' (drop (off + n) data)" by simp
        from emitted_trans[OF e1 this] show ?thesis
          by (metis add.commute append_take_drop_id drop_drop)
      qed
    qed
  qed
qed


lemma write_packet_total:
  assumes "writer_ok w"
  shows "\<exists>w'. write_packet final w = (Inr (), w') \<and> writer_ok w'"
proof -
  from assms have "header_pack (w_type w) (if final then 1 else 0) (w_pos w) 0 (w_packet_no w)
      = Inr [of_nat (w_type w), of_nat (if final then 1 else 0),
                of_nat (w_pos w div 256), of_nat (w_pos w mod 256), 0, 0, of_nat (w_packet_no w), 0]"
    by (simp add: header_pack_def writer_ok_def)
  with assms show ?thesis
    by (auto simp: write_packet_def header_pack_into_def writer_ok_def Let_def)
qed

lemma write_loop_total:
  "writer_ok w \<Longrightarrow> \<exists>w'. write_loop data off w = Some (Inr (), w') \<and> writer_ok w'"
proof (induction "2 * (length data - off) + (if w_pos w = length (w_buf w) then 1 else 0)"
        arbitrary: off w rule: less_induct)
  case less
  show ?case
  proof (cases "off < length data")
    case False
    with less.prems show ?thesis by (subst write_loop.simps) simp
  next
    case True
    show ?thesis
    proof (cases "w_pos w = length (w_buf w)")
      case full: True
      from write_packet_total[OF less.prems] obtain w1 where
        wp: "write_packet False w = (Inr (), w1)" and ok1: "writer_ok w1" by blast
      have "w_pos w1 = 8"
        using write_packet_ok(3)[OF wp] less.prems by (simp add: writer_ok_def)
      with ok1 have "w_pos w1 \<noteq> length (w_buf w1)" by (simp add: writer_ok_def)
      with full have "2 * (length data - off) + (if w_pos w1 = length (w_buf w1) then 1 else 0)
          < 2 * (length data - off) + (if w_pos w = length (w_buf w) then 1 else 0)" by simp
      from less.hyps[OF this ok1] obtain w' where
        "write_loop data off w1 = Some (Inr (), w')" "writer_ok w'" by blast
      with True full wp show ?thesis by (subst write_loop.simps) simp
    next
      case room: False
      with less.prems have lt: "w_pos w < length (w_buf w)" by (simp add: writer_ok_def)
      define n where "n = min (nat (int (length (w_buf w)) - int (w_pos w))) (length data - off)"
      define w1 where "w1 = w\<lparr>w_buf := take (w_pos w) (w_buf w) @ take n (drop off data)
                          @ drop (w_pos w + n) (w_buf w), w_pos := w_pos w + n\<rparr>"
      have n: "0 < n" "n \<le> length (w_buf w) - w_pos w" "n \<le> length data - off"
        using lt True by (auto simp: n_def)
      have ok1: "writer_ok w1" using less.prems n lt by (simp add: writer_ok_def w1_def)
      have "2 * (length data - (off + n)) + (if w_pos w1 = length (w_buf w1) then 1 else 0)
          < 2 * (length data - off) + (if w_pos w = length (w_buf w) then 1 else 0)"
        using n True room by auto
      from less.hyps[OF this ok1] obtain w' where
        "write_loop data (off + n) w1 = Some (Inr (), w')" "writer_ok w'" by blast
      with True lt show ?thesis by (subst write_loop.simps) (simp add: Let_def n_def w1_def)
    qed
  qed
qed

lemma write_chunks_partial:
  "write_chunks chunks w = Some (Inr (), w') \<Longrightarrow> writer_inv w \<Longrightarrow> emitted w w' (concat chunks)"
proof (induction chunks arbitrary: w)
  case Nil
  then show ?case by (simp add: emitted_refl)
next
  case (Cons d ds)
  from Cons.prems(1) obtain w1 where w1: "write_loop d 0 w = Some (Inr (), w1)"
    and rest: "write_chunks ds w1 = Some (Inr (), w')"
    by (auto simp: writer_write_def split: option.splits prod.splits sum.splits)
  from write_loop_partial[OF w1] Cons.prems(2) have e1: "emitted w w1 d" by simp
  then have "writer_inv w1" by (simp add: emitted_def)
  from emitted_trans[OF e1 Cons.IH[OF rest this]] show ?case by simp
qed

lemma write_chunks_total:
  "writer_ok w \<Longrightarrow> \<exists>w'. write_chunks chunks w = Some (Inr (), w') \<and> writer_ok w'"
proof (induction chunks arbitrary: w)
  case Nil
  then show ?case by simp
next
  case (Cons d ds)
  from write_loop_total[OF Cons.prems] obtain w1 where
    w1: "write_loop d 0 w = Some (Inr (), w1)" and ok1: "writer_ok w1" by blast
  from Cons.IH[OF ok1] w1 show ?case by (simp add: writer_write_def)
qed

text \<open>
  A buffer of exactly 8 bytes has no room for payload: a \<open>write\<close> of data that is not
  empty sends header-only packets and never returns.
\<close>

lemma write_packet_header_only:
  assumes "length (w_buf w) = 8" "w_pos w = 8" "w_type w < 256" "w_packet_no w < 256"
  shows "\<exists>w'. write_packet False w = (Inr (), w') \<and> length (w_buf w') = 8 \<and> w_pos w' = 8
               \<and> w_type w' < 256 \<and> w_packet_no w' < 256"
  using assms
  by (simp add: write_packet_def header_pack_into_def header_pack_def)

lemma write_loop_returns_not_header_only:
  "write_loop data off w = Some r \<Longrightarrow>
   \<not> (length (w_buf w) = 8 \<and> w_pos w = 8 \<and> w_type w < 256 \<and> w_packet_no w < 256
      \<and> off < length data)"
proof (induction data off w r rule: write_loop.raw_induct[rotated, consumes 1])
  case (1 f data off w r)
  show ?case
  proof
    assume a: "length (w_buf w) = 8 \<and> w_pos w = 8 \<and> w_type w < 256 \<and> w_packet_no w < 256
      \<and> off < length data"
    from write_packet_header_only[of w] a obtain w' where
      wp: "write_packet False w = (Inr (), w')" and
      w': "length (w_buf w') = 8 \<and> w_pos w' = 8 \<and> w_type w' < 256 \<and> w_packet_no w' < 256"
      by blast
    from 1(2) a wp have "f data off w' = Some r" by simp
    from 1(1)[OF this] w' a show False by simp
  qed
qed

lemma write_loop_diverges:
  assumes "length (w_buf w) = 8" "w_pos w = 8" "w_type w < 256" "w_packet_no w < 256"
    "off < length data"
  shows "write_loop data off w = None"
proof (cases "write_loop data off w")
  case None
  then show ?thesis .
next
  case (Some r)
  from write_loop_returns_not_header_only[OF Some] assms show ?thesis by simp
qed

text \<open>Unfolding the loop one step, in a form that evaluates on concrete input.\<close>

lemma write_loop_unfold:
  "write_loop data off w =
     (if off < length data then
        (if length (w_buf w) \<le> w_pos w then
           (if isl (fst (write_packet False w)) then Some (write_packet False w)
            else write_loop data off (snd (write_packet False w)))
         else write_loop data (off + min (length (w_buf w) - w_pos w) (length data - off))
              (w\<lparr>w_buf := take (w_pos w) (w_buf w)
                          @ take (min (length (w_buf w) - w_pos w) (length data - off)) (drop off data)
                          @ drop (w_pos w + min (length (w_buf w) - w_pos w) (length data - off)) (w_buf w),
                 w_pos := w_pos w + min (length (w_buf w) - w_pos w) (length data - off)\<rparr>))
      else Some (Inr (), w))"
  apply (subst write_loop.simps)
  apply (cases "write_packet False w")
  apply (auto simp: Let_def split: sum.splits)
  apply (simp_all add: nat_diff_distrib' of_nat_diff)
  done

text \<open>
  C1. A logical message written as \<open>begin_packet\<close>, any sequence of \<open>write\<close> calls and
  one \<open>flush\<close>: whenever these calls return, the payloads of the packets handed to
  \<open>sendall\<close> for the message, concatenated, are exactly the bytes written, the last of
  these packets has the final bit and no other has. And the calls do return, for every
  chunking, when the buffer is longer than the 8-byte header and no longer than 65535
  bytes and the packet type and packet number fit a byte.
\<close>

theorem writer_message_framing:
  "(send_message packet_type chunks w = Some (Inr (), w') \<longrightarrow>
      (\<exists>new. w_sent w' = w_sent w @ new \<and> new \<noteq> [] \<and>
         concat (map packet_payload new) = concat chunks \<and>
         packet_final (last new) \<and> (\<forall>p \<in> set (butlast new). \<not> packet_final p)))
   \<and> (8 < bufsize w \<and> bufsize w \<le> 65535 \<and> packet_type < 256 \<and> w_packet_no w < 256 \<longrightarrow>
      (\<exists>w''. send_message packet_type chunks w = Some (Inr (), w'')))"
proof (intro conjI impI)
  assume sm: "send_message packet_type chunks w = Some (Inr (), w')"
  let ?w0 = "begin_packet packet_type w"
  from sm obtain w1 where wc: "write_chunks chunks ?w0 = Some (Inr (), w1)"
    and fl: "write_packet True w1 = (Inr (), w')"
    by (auto simp: send_message_def flush_def split: option.splits prod.splits sum.splits)
  have inv0: "writer_inv ?w0" by (auto simp: writer_inv_def begin_packet_def)
  have pend0: "pending ?w0 = []" by (simp add: pending_def begin_packet_def)
  from write_chunks_partial[OF wc inv0] pend0 obtain n1 where
    n1: "w_sent w1 = w_sent w @ n1" "list_all (\<lambda>p. \<not> packet_final p) n1"
      "concat (map packet_payload n1) @ pending w1 = concat chunks"
    and inv1: "writer_inv w1"
    by (auto simp: emitted_def begin_packet_def)
  from inv1 have "8 \<le> w_pos w1" by (simp add: writer_inv_def)
  from write_packet_ok(6)[OF fl this] obtain p where
    p: "w_sent w' = w_sent w1 @ [p]" "packet_final p" "packet_payload p = pending w1" by auto
  have "w_sent w' = w_sent w @ (n1 @ [p])" using n1(1) p(1) by simp
  moreover have "concat (map packet_payload (n1 @ [p])) = concat chunks" using n1(3) p(3) by simp
  moreover have "packet_final (last (n1 @ [p]))" using p(2) by simp
  moreover have "\<forall>q \<in> set (butlast (n1 @ [p])). \<not> packet_final q"
    using n1(2) by (simp add: list_all_iff)
  ultimately show "\<exists>new. w_sent w' = w_sent w @ new \<and> new \<noteq> [] \<and>
         concat (map packet_payload new) = concat chunks \<and>
         packet_final (last new) \<and> (\<forall>p \<in> set (butlast new). \<not> packet_final p)"
    by blast
next
  assume a: "8 < bufsize w \<and> bufsize w \<le> 65535 \<and> packet_type < 256 \<and> w_packet_no w < 256"
  then have "writer_ok (begin_packet packet_type w)"
    by (simp add: writer_ok_def begin_packet_def bufsize_def)
  from write_chunks_total[OF this] obtain w1 where
    wc: "write_chunks chunks (begin_packet packet_type w) = Some (Inr (), w1)" and ok1: "writer_ok w1"
    by blast
  from write_packet_total[OF ok1] obtain w2 where "write_packet True w1 = (Inr (), w2)" by blast
  with wc show "\<exists>w''. send_message packet_type chunks w = Some (Inr (), w'')"
    by (simp add: send_message_def flush_def)
qed


text \<open>
  Eight bytes in three chunks through an 11-byte buffer: three packets, the last one
  final.
\<close>

lemma send_message_example:
  "send_message 1 [[1,2,3],[4,5,6,7],[8]]
     \<lparr>w_pos = 0, w_buf = replicate 11 0, w_packet_no = 255, w_type = 0, w_sent = []\<rparr>
   = Some (Inr (),
       \<lparr>w_pos = 8, w_buf = [1, 1, 0, 10, 0, 0, 1, 0, 7, 8, 6], w_packet_no = 2, w_type = 1,
        w_sent = [[1, 0, 0, 11, 0, 0, 255, 0, 1, 2, 3],
                  [1, 0, 0, 11, 0, 0, 0, 0, 4, 5, 6],
                  [1, 1, 0, 10, 0, 0, 1, 0, 7, 8]]\<rparr>)"
  by (simp add: send_message_def writer_write_def begin_packet_def flush_def write_loop_unfold
      write_packet_def header_pack_into_def header_pack_def)

theorem writer_message_framing_witness:
  "\<exists>w' new.
     send_message 1 [[1,2,3],[4,5,6,7],[8]]
       \<lparr>w_pos = 0, w_buf = replicate 11 0, w_packet_no = 255, w_type = 0, w_sent = []\<rparr>
       = Some (Inr (), w')
     \<and> w_sent w' = new \<and> length new = 3
     \<and> concat (map packet_payload new) = [1,2,3,4,5,6,7,8]
     \<and> packet_final (last new) \<and> list_all (\<lambda>p. \<not> packet_final p) (butlast new)"
proof -
  let ?w = "\<lparr>w_pos = 0, w_buf = replicate 11 0, w_packet_no = 255, w_type = 0, w_sent = []\<rparr>"
  let ?cs = "[[1,2,3],[4,5,6,7],[8::byte]]"
  have "8 < bufsize ?w \<and> bufsize ?w \<le> 65535 \<and> (1::nat) < 256 \<and> w_packet_no ?w < 256"
    by (simp add: bufsize_def)
  with writer_message_framing[of 1 ?cs ?w] obtain w' where
    sm: "send_message 1 ?cs ?w = Some (Inr (), w')" by blast
  with writer_message_framing[of 1 ?cs ?w w'] obtain new where
    new: "w_sent w' = w_sent ?w @ new" "concat (map packet_payload new) = concat ?cs"
      "packet_final (last new)" "\<forall>p \<in> set (butlast new). \<not> packet_final p"
    by blast
  from sm have "length (w_sent w') = 3" unfolding send_message_example by auto
  with sm new show ?thesis by (simp add: list_all_iff)
qed

subsection \<open>The writer: the packet number\<close>

text \<open>
  C7, as amended. The packet number is kept modulo 256: every packet that
  \<open>_write_packet\<close> emits carries the current number and advances it by one modulo
  256. \<open>begin_packet\<close> does not touch it: the number runs on across the messages of a
  writer and is not reset when a message begins.
\<close>

theorem packet_no_not_reset:
  "(8 \<le> w_pos w \<and> write_packet final w = (Inr (), w') \<longrightarrow>
      w_packet_no w' = (w_packet_no w + 1) mod 256 \<and>
      (\<exists>p. w_sent w' = w_sent w @ [p] \<and> packet_number p = w_packet_no w))
   \<and> w_packet_no (begin_packet packet_type w) = w_packet_no w"
proof (intro conjI impI)
  assume a: "8 \<le> w_pos w \<and> write_packet final w = (Inr (), w')"
  then have p8: "8 \<le> w_pos w" and wp: "write_packet final w = (Inr (), w')" by auto
  show "w_packet_no w' = (w_packet_no w + 1) mod 256" by (rule write_packet_ok(5)[OF wp p8])
  from write_packet_ok(6)[OF wp p8]
  show "\<exists>p. w_sent w' = w_sent w @ [p] \<and> packet_number p = w_packet_no w" by blast
next
  show "w_packet_no (begin_packet packet_type w) = w_packet_no w" by (simp add: begin_packet_def)
qed


text \<open>A writer at packet number 255: the packet carries 255, the number wraps to 0.\<close>

theorem packet_no_not_reset_witness:
  "write_packet True (begin_packet 1 ((new_writer 16)\<lparr>w_packet_no := 255\<rparr>))
     = (Inr (), \<lparr>w_pos = 8, w_buf = [1, 1, 0, 8, 0, 0, 255, 0] @ replicate 8 0,
                 w_packet_no = 0, w_type = 1, w_sent = [[1, 1, 0, 8, 0, 0, 255, 0]]\<rparr>)
   \<and> packet_number [1, 1, 0, 8, 0, 0, 255, 0] = 255
   \<and> w_packet_no (begin_packet 1 ((new_writer 16)\<lparr>w_packet_no := 255\<rparr>)) = 255"
proof -
  let ?w = "begin_packet 1 ((new_writer 16)\<lparr>w_packet_no := 255\<rparr>)"
  let ?w' = "\<lparr>w_pos = 8, w_buf = [1, 1, 0, 8, 0, 0, 255, 0] @ replicate 8 0,
                 w_packet_no = 0, w_type = 1, w_sent = [[1, 1, 0, 8, 0, 0, 255, 0 :: byte]]\<rparr>"
  have e: "write_packet True ?w = (Inr (), ?w')"
    by (simp add: write_packet_def header_pack_into_def header_pack_def begin_packet_def
        new_writer_def)
  have p: "8 \<le> w_pos ?w" by (simp add: begin_packet_def)
  from packet_no_not_reset[of ?w True ?w' 1] e p
  have "\<exists>p. w_sent ?w' = w_sent ?w @ [p] \<and> packet_number p = w_packet_no ?w" by blast
  then have "packet_number [1, 1, 0, 8, 0, 0, 255, 0] = w_packet_no ?w"
    by (simp add: begin_packet_def new_writer_def)
  moreover have "w_packet_no ?w = 255" by (simp add: begin_packet_def new_writer_def)
  ultimately show ?thesis using e by simp
qed

text \<open>
  C7 as the claim states it fails: a fresh writer sends a message of one packet
  (number 0); after the \<open>begin_packet\<close> of the next message the number is 1, and the
  first packet of that message carries 1, not 0.
\<close>

theorem packet_no_reset_counterexample:
  "send_message 1 [[7]] (new_writer 16)
     = Some (Inr (), \<lparr>w_pos = 8, w_buf = [1, 1, 0, 9, 0, 0, 0, 0, 7] @ replicate 7 0,
                      w_packet_no = 1, w_type = 1, w_sent = [[1, 1, 0, 9, 0, 0, 0, 0, 7]]\<rparr>)
   \<and> w_packet_no (begin_packet 1
         \<lparr>w_pos = 8, w_buf = [1, 1, 0, 9, 0, 0, 0, 0, 7] @ replicate 7 0,
          w_packet_no = 1, w_type = 1, w_sent = [[1, 1, 0, 9, 0, 0, 0, 0, 7]]\<rparr>) = 1
   \<and> send_message 1 [[9]]
         \<lparr>w_pos = 8, w_buf = [1, 1, 0, 9, 0, 0, 0, 0, 7] @ replicate 7 0,
          w_packet_no = 1, w_type = 1, w_sent = [[1, 1, 0, 9, 0, 0, 0, 0, 7]]\<rparr>
     = Some (Inr (), \<lparr>w_pos = 8, w_buf = [1, 1, 0, 9, 0, 0, 1, 0, 9] @ replicate 7 0,
                      w_packet_no = 2, w_type = 1,
                      w_sent = [[1, 1, 0, 9, 0, 0, 0, 0, 7], [1, 1, 0, 9, 0, 0, 1, 0, 9]]\<rparr>)
   \<and> packet_number [1, 1, 0, 9, 0, 0, 1, 0, 9] = 1"
  by (simp add: send_message_def writer_write_def begin_packet_def flush_def write_loop_unfold
      write_packet_def header_pack_into_def header_pack_def new_writer_def packet_number_def)

subsection \<open>The state machine\<close>

text \<open>
  C2. \<open>set_state\<close> performs a requested transition exactly when it is one of the
  documented ones; any other request raises \<open>InterfaceError\<close> and leaves the session,
  its state included, as it was.
\<close>

theorem set_state_transitions:
  "(documented_transition (state s) st \<longrightarrow>
      (\<exists>s'. set_state st s = (Inr st, s') \<and> state s' = st))
   \<and> (\<not> documented_transition (state s) st \<longrightarrow>
      (\<exists>msg. set_state st s = (Inl (InterfaceError msg), s)))"
  by (cases st; cases "state s")
     (simp_all add: set_state_def documented_transition_def logic_error_def)


text \<open>A fresh session is IDLE: it may start querying, it may not start reading.\<close>

theorem set_state_transitions_witness:
  "(\<exists>s'. set_state TDS_QUERYING (new_session 4096 []) = (Inr TDS_QUERYING, s')
         \<and> state s' = TDS_QUERYING)
   \<and> (\<exists>msg. set_state TDS_READING (new_session 4096 [])
         = (Inl (InterfaceError msg), new_session 4096 []))"
  using set_state_transitions[of "new_session 4096 []" TDS_QUERYING]
        set_state_transitions[of "new_session 4096 []" TDS_READING]
  by (simp add: documented_transition_def new_session_def)


subsection \<open>Password obfuscation\<close>

lemma crypt_all_bytes:
  "\<forall>b \<in> set [0..255].
     tds7_decrypt_byte_spec (tds7_crypt_byte b) = b
     \<and> 0 \<le> tds7_crypt_byte b \<and> tds7_crypt_byte b < 256"
  by code_simp

lemma crypt_byte_range:
  assumes "0 \<le> b" "b < 256"
  shows "tds7_decrypt_byte_spec (tds7_crypt_byte b) = b"
    "0 \<le> tds7_crypt_byte b" "tds7_crypt_byte b < 256"
proof -
  from assms have "b \<in> set [0..255]" by simp
  with crypt_all_bytes show "tds7_decrypt_byte_spec (tds7_crypt_byte b) = b"
    "0 \<le> tds7_crypt_byte b" "tds7_crypt_byte b < 256" by blast+
qed

lemma crypt_bytes_map:
  "\<forall>b \<in> set bs. 0 \<le> b \<and> b < 256 \<Longrightarrow> crypt_bytes bs = Inr (map tds7_crypt_byte bs)"
  by (induction bs) (simp_all add: crypt_byte_range Let_def)


text \<open>
  C9. On the bytes of the encoded password (each in \<open>range(256)\<close>), \<open>tds7_crypt_pass\<close>
  returns, byte for byte, \<open>(((b << 4) & 0xFF) | (b >> 4)) XOR 0xA5\<close>; each result is a
  byte again, and XOR with 0xA5 followed by a nibble swap gives the original bytes
  back.
\<close>

theorem tds7_crypt_pass_invertible:
  assumes "\<forall>b \<in> set (ucs2_encode password). 0 \<le> b \<and> b < 256"
  shows "tds7_crypt_pass ucs2_encode password
           = Inr (map (\<lambda>b. ((push_bit 4 b AND 0xff) OR drop_bit 4 b) XOR 0xA5)
                      (ucs2_encode password))
         \<and> (\<forall>out. tds7_crypt_pass ucs2_encode password = Inr out \<longrightarrow>
               map tds7_decrypt_byte_spec out = ucs2_encode password
               \<and> (\<forall>c \<in> set out. 0 \<le> c \<and> c < 256))"
proof -
  let ?bs = "ucs2_encode password"
  have f: "(\<lambda>b. ((push_bit 4 b AND 0xff) OR drop_bit 4 b) XOR 0xA5) = tds7_crypt_byte"
    by (simp add: fun_eq_iff tds7_crypt_byte_def)
  have e: "tds7_crypt_pass ucs2_encode password = Inr (map tds7_crypt_byte ?bs)"
    using assms by (simp add: tds7_crypt_pass_def crypt_bytes_map)
  have "map tds7_decrypt_byte_spec (map tds7_crypt_byte ?bs) = ?bs"
    using assms by (simp add: crypt_byte_range map_idI)
  moreover have "\<forall>c \<in> set (map tds7_crypt_byte ?bs). 0 \<le> c \<and> c < 256"
    using assms by (auto simp: crypt_byte_range)
  ultimately show ?thesis using e by (simp add: f)
qed


text \<open>The password \<open>Ab\<close>: code units 0x41, 0x62.\<close>

theorem tds7_crypt_pass_invertible_witness:
  "tds7_crypt_pass ucs2_le_encode [0x41, 0x62] = Inr [0xB1, 0xA5, 0x83, 0xA5]
   \<and> map tds7_decrypt_byte_spec [0xB1, 0xA5, 0x83, 0xA5] = [0x41, 0, 0x62, 0]"
proof -
  have enc: "ucs2_le_encode [0x41, 0x62] = [0x41, 0, 0x62, 0]"
    by (simp add: ucs2_le_encode_def)
  have "\<forall>b \<in> set (ucs2_le_encode [0x41, 0x62]). 0 \<le> b \<and> b < 256"
    unfolding enc by simp
  note t = tds7_crypt_pass_invertible[of ucs2_le_encode "[0x41, 0x62]", OF this, unfolded enc]
  have c: "map (\<lambda>b. ((push_bit 4 b AND 0xff) OR drop_bit 4 b) XOR 0xA5) [0x41, 0, 0x62, 0::int]
           = [0xB1, 0xA5, 0x83, 0xA5]"
    by code_simp
  from t[THEN conjunct1] have a: "tds7_crypt_pass ucs2_le_encode [0x41, 0x62]
      = Inr [0xB1, 0xA5, 0x83, 0xA5]"
    unfolding c .
  from t[THEN conjunct2, rule_format, OF a] have "map tds7_decrypt_byte_spec [0xB1, 0xA5, 0x83, 0xA5]
      = [0x41, 0, 0x62, 0]" by blast
  with a show ?thesis by blast
qed

subsection \<open>Raising the database exception\<close>

lemma kept_messages_snoc:
  "kept_messages (xs @ [x]) = (if msgno x = 3621 then kept_messages xs else xs @ [x])"
  by (simp add: kept_messages_def)

lemma kept_messages_Nil_iff:
  "kept_messages msgs = [] \<longleftrightarrow> (\<forall>m \<in> set msgs. msgno m = 3621)"
  by (simp add: kept_messages_def dropWhile_eq_Nil_conv)

lemma skip_terminated_eq:
  "skip_terminated msgs =
     (if kept_messages msgs = [] then (Inl IndexError, [])
      else (Inr (last (kept_messages msgs)), kept_messages msgs))"
proof (induction msgs rule: rev_induct)
  case Nil
  show ?case by (subst skip_terminated.simps) (simp add: kept_messages_def)
next
  case (snoc x xs)
  show ?case
  proof (cases "msgno x = 3621")
    case True
    then have "skip_terminated (xs @ [x]) = skip_terminated xs"
      by (subst skip_terminated.simps) simp
    with snoc True show ?thesis by (simp add: kept_messages_snoc)
  next
    case False
    then have "skip_terminated (xs @ [x]) = (Inr x, xs @ [x])"
      by (subst skip_terminated.simps) simp
    with False show ?thesis by (simp add: kept_messages_snoc)
  qed
qed

lemma raise_db_exception_eq:
  "raise_db_exception P I s =
     (if messages s = []
      then (TdsError (''Request failed, server didn'' @ [CHR 0x27] @ ''t send error message''), s)
      else if kept_messages (messages s) = [] then (IndexError, s\<lparr>messages := []\<rparr>)
      else (create_exception_by_message P I (last (kept_messages (messages s)))
              (Some (join_space (map message (kept_messages (messages s))))),
            s\<lparr>messages := kept_messages (messages s)\<rparr>))"
  by (simp add: raise_db_exception_def skip_terminated_eq)

lemma create_exception_is_db:
  "create_exception_by_message P I m c =
     DbException (if msgno m \<in> P then ProgrammingError
                  else if msgno m \<in> I then IntegrityError else OperationalError)
                 (case c of Some t \<Rightarrow> t | None \<Rightarrow> message m) m"
  by (simp add: create_exception_by_message_def Let_def)

text \<open>
  What \<open>kept_messages\<close> keeps: a prefix of the list, ending in a message other than
  3621 unless it is empty, and what it drops are messages 3621.
\<close>

lemma kept_messages_split:
  "\<exists>dropped. msgs = kept_messages msgs @ dropped \<and> (\<forall>m \<in> set dropped. msgno m = 3621)
     \<and> (kept_messages msgs = [] \<or> msgno (last (kept_messages msgs)) \<noteq> 3621)"
proof (induction msgs rule: rev_induct)
  case Nil
  show ?case by (simp add: kept_messages_def)
next
  case (snoc x xs)
  show ?case
  proof (cases "msgno x = 3621")
    case True
    from snoc obtain d where d: "xs = kept_messages xs @ d" "\<forall>m \<in> set d. msgno m = 3621"
      "kept_messages xs = [] \<or> msgno (last (kept_messages xs)) \<noteq> 3621" by blast
    from d(1) have "xs @ [x] = kept_messages xs @ (d @ [x])" by simp
    moreover have "\<forall>m \<in> set (d @ [x]). msgno m = 3621" using d(2) True by simp
    ultimately have "xs @ [x] = kept_messages (xs @ [x]) @ (d @ [x])
        \<and> (\<forall>m \<in> set (d @ [x]). msgno m = 3621)
        \<and> (kept_messages (xs @ [x]) = [] \<or> msgno (last (kept_messages (xs @ [x]))) \<noteq> 3621)"
      using d(3) True by (simp add: kept_messages_snoc)
    then show ?thesis by (rule exI)
  next
    case False
    then show ?thesis by (simp add: kept_messages_snoc)
  qed
qed

text \<open>
  C10. When the message list is not empty and every message is 3621,
  \<open>raise_db_exception\<close> empties the list and the index into its last element raises
  \<open>IndexError\<close>. It raises a database exception (programming, integrity or
  operational) exactly when some message has a number other than 3621.
\<close>

theorem raise_db_exception_all_terminated:
  "(messages s \<noteq> [] \<and> (\<forall>m \<in> set (messages s). msgno m = 3621) \<longrightarrow>
      raise_db_exception P I s = (IndexError, s\<lparr>messages := []\<rparr>))
   \<and> ((\<exists>cls txt m. fst (raise_db_exception P I s) = DbException cls txt m)
        \<longleftrightarrow> (\<exists>m \<in> set (messages s). msgno m \<noteq> 3621))"
proof (intro conjI impI)
  assume "messages s \<noteq> [] \<and> (\<forall>m \<in> set (messages s). msgno m = 3621)"
  then show "raise_db_exception P I s = (IndexError, s\<lparr>messages := []\<rparr>)"
    by (simp add: raise_db_exception_eq kept_messages_Nil_iff)
next
  show "(\<exists>cls txt m. fst (raise_db_exception P I s) = DbException cls txt m)
        \<longleftrightarrow> (\<exists>m \<in> set (messages s). msgno m \<noteq> 3621)"
  proof (cases "kept_messages (messages s) = []")
    case True
    then have all: "\<forall>m \<in> set (messages s). msgno m = 3621"
      by (simp add: kept_messages_Nil_iff)
    from True have "fst (raise_db_exception P I s) = IndexError
        \<or> fst (raise_db_exception P I s)
           = TdsError (''Request failed, server didn'' @ [CHR 0x27] @ ''t send error message'')"
      by (simp add: raise_db_exception_eq)
    with all show ?thesis by auto
  next
    case False
    then have ex: "\<exists>m \<in> set (messages s). msgno m \<noteq> 3621"
      by (simp add: kept_messages_Nil_iff)
    from False have "messages s \<noteq> []" by (auto simp: kept_messages_def)
    with False have "\<exists>cls txt m. fst (raise_db_exception P I s) = DbException cls txt m"
      by (simp add: raise_db_exception_eq create_exception_is_db)
    with ex show ?thesis by blast
  qed
qed

text \<open>Two messages 3621: \<open>IndexError\<close>. A real error before one: a database exception.\<close>

theorem raise_db_exception_all_terminated_witness:
  "raise_db_exception {102} {2627}
       ((new_session 16 [])\<lparr>messages := [msg_terminated, msg_terminated]\<rparr>)
     = (IndexError, new_session 16 [])
   \<and> (\<exists>cls txt m.
         fst (raise_db_exception {102} {2627}
               ((new_session 16 [])\<lparr>messages := [msg_a, msg_terminated]\<rparr>))
         = DbException cls txt m)"
  using raise_db_exception_all_terminated
          [of "(new_session 16 [])\<lparr>messages := [msg_terminated, msg_terminated]\<rparr>" "{102}" "{2627}"]
        raise_db_exception_all_terminated
          [of "(new_session 16 [])\<lparr>messages := [msg_a, msg_terminated]\<rparr>" "{102}" "{2627}"]
  by (simp add: msg_a_def msg_terminated_def new_session_def)

subsection \<open>DONE tokens\<close>

lemma set_state_idle:
  "state s \<noteq> TDS_DEAD \<Longrightarrow> set_state TDS_IDLE s = (Inr TDS_IDLE, s\<lparr>state := TDS_IDLE\<rparr>)"
  by (cases "state s") (auto simp: set_state_def)


lemma raise_db_exception_frame:
  "state (snd (raise_db_exception P I s)) = state s"
  "in_cancel (snd (raise_db_exception P I s)) = in_cancel s"
  by (simp_all add: raise_db_exception_eq)

text \<open>
  C3. A session that is not DEAD and has no cancel in flight handles a DONE,
  DONEPROC or DONEINPROC token whose status has the MORE bit unset: afterwards, also
  when the handler raises the database exception, the state is IDLE and \<open>in_cancel\<close>
  is false.
\<close>

theorem process_end_idle:
  assumes "state s \<noteq> TDS_DEAD"
    and "marker_id \<in> {TDS_DONE_TOKEN, TDS_DONEPROC_TOKEN, TDS_DONEINPROC_TOKEN}"
    and "dt_status tok AND TDS_DONE_MORE_RESULTS = 0"
    and "\<not> in_cancel s"
  shows "state (snd (process_end P I marker_id tok s)) = TDS_IDLE
         \<and> \<not> in_cancel (snd (process_end P I marker_id tok s))"
proof -
  define s2 where "s2 = (case res_info (s\<lparr>end_marker := marker_id, more_rows := False\<rparr>) of
                  None \<Rightarrow> s\<lparr>end_marker := marker_id, more_rows := False\<rparr>
                | Some ri \<Rightarrow> s\<lparr>end_marker := marker_id, more_rows := False,
                     res_info := Some (ri\<lparr>more_results := (dt_status tok AND TDS_DONE_MORE_RESULTS \<noteq> 0)\<rparr>)\<rparr>)"
  have s2: "state s2 = state s" "in_cancel s2 = in_cancel s"
    by (simp_all add: s2_def split: option.splits)
  then have st: "set_state TDS_IDLE (s2\<lparr>in_cancel := False\<rparr>)
      = (Inr TDS_IDLE, s2\<lparr>in_cancel := False, state := TDS_IDLE\<rparr>)"
    using assms(1) by (simp add: set_state_idle)
  have "process_end P I marker_id tok s =
      (let s5 = s2\<lparr>in_cancel := False, state := TDS_IDLE,
                   rows_affected := (if dt_status tok AND TDS_DONE_COUNT \<noteq> 0
                                     then dt_rowcount tok else - 1),
                   done_flags := dt_status tok\<rparr>
       in if dt_status tok AND TDS_DONE_ERROR \<noteq> 0 \<and> dt_status tok AND TDS_DONE_CANCELLED = 0
          then (Inl (fst (raise_db_exception P I s5)), snd (raise_db_exception P I s5))
          else (Inr (), s5))"
    using assms(2,3,4) s2(2) st
    unfolding process_end_def Let_def s2_def[symmetric]
    by (auto simp: split_beta)
  then show ?thesis
    by (simp add: Let_def raise_db_exception_frame)
qed

text \<open>A READING session and a DONE token with a valid count of one row.\<close>

theorem process_end_idle_witness:
  "state (snd (process_end {102} {2627} TDS_DONE_TOKEN
                 \<lparr>dt_status = 0x10, dt_cur_cmd = 0xC1, dt_rowcount = 1\<rparr>
                 ((new_session 16 [])\<lparr>state := TDS_READING\<rparr>))) = TDS_IDLE
   \<and> \<not> in_cancel (snd (process_end {102} {2627} TDS_DONE_TOKEN
                 \<lparr>dt_status = 0x10, dt_cur_cmd = 0xC1, dt_rowcount = 1\<rparr>
                 ((new_session 16 [])\<lparr>state := TDS_READING\<rparr>)))
   \<and> rows_affected (snd (process_end {102} {2627} TDS_DONE_TOKEN
                 \<lparr>dt_status = 0x10, dt_cur_cmd = 0xC1, dt_rowcount = 1\<rparr>
                 ((new_session 16 [])\<lparr>state := TDS_READING\<rparr>))) = 1"
proof -
  let ?s = "(new_session 16 [])\<lparr>state := TDS_READING\<rparr>"
  let ?tok = "\<lparr>dt_status = 0x10, dt_cur_cmd = 0xC1, dt_rowcount = 1\<rparr>"
  have "state ?s \<noteq> TDS_DEAD" by simp
  moreover have "TDS_DONE_TOKEN \<in> {TDS_DONE_TOKEN, TDS_DONEPROC_TOKEN, TDS_DONEINPROC_TOKEN}"
    by simp
  moreover have "dt_status ?tok AND TDS_DONE_MORE_RESULTS = 0"
    by (simp add: TDS_DONE_MORE_RESULTS_def)
  moreover have "\<not> in_cancel ?s" by (simp add: new_session_def)
  ultimately have "state (snd (process_end {102} {2627} TDS_DONE_TOKEN ?tok ?s)) = TDS_IDLE
      \<and> \<not> in_cancel (snd (process_end {102} {2627} TDS_DONE_TOKEN ?tok ?s))"
    by (rule process_end_idle)
  moreover have "rows_affected (snd (process_end {102} {2627} TDS_DONE_TOKEN ?tok ?s)) = 1"
    by (simp add: process_end_def new_session_def set_state_def TDS_DONE_TOKEN_def
        TDS_DONEPROC_TOKEN_def TDS_DONEINPROC_TOKEN_def TDS_DONE_MORE_RESULTS_def
        TDS_DONE_CANCELLED_def TDS_DONE_COUNT_def TDS_DONE_ERROR_def)
  ultimately show ?thesis by simp
qed




subsection \<open>ENVCHANGE: packet size\<close>







text \<open>What \<open>int\<close> makes of some strings.\<close>

lemma py_int_examples: "py_int ''8000'' = Inr 8000" "py_int ''256'' = Inr 256"
  "py_int '' +5_12 '' = Inr 512" "py_int ''4k'' = Inl ValueError" "py_int [] = Inl ValueError"
  by (simp_all add: py_int_def is_py_space_def digit_of_def)



subsection \<open>PRELOGIN: the encryption matrix\<close>

lemma prelogin_options_tls:
  "prelogin_options T p i cf s = (r, s') \<Longrightarrow> tls_established s' = tls_established s"
proof (induction "length p - i" arbitrary: i cf s rule: less_induct)
  case less
  have IH: "\<And>cf' s''. prelogin_options T p (i + 5) cf' s'' = (r, s') \<Longrightarrow> i < length p
      \<Longrightarrow> tls_established s' = tls_established s''"
  proof -
    fix cf' s'' assume a: "prelogin_options T p (i + 5) cf' s'' = (r, s')" and b: "i < length p"
    from b have "length p - (i + 5) < length p - i" by simp
    from less.hyps[OF this a] show "tls_established s' = tls_established s''" .
  qed
  from less.prems show ?case
    by (subst (asm) prelogin_options.simps)
       (auto simp: Let_def bad_stream_def split: if_splits dest!: IH)
qed

text \<open>
  C5, as amended. Whatever distinct values the four flags have: when the option
  table yields the server flag and no TLS channel exists yet, \<open>parse_prelogin\<close>
  gives, for server OFF, an error for client ON and encrypt-login-only for client
  OFF, REQ and NOT_SUP; for server ON, encrypt-entire-channel for every client flag;
  for server REQ, an error for client NOT_SUP and encrypt-entire-channel otherwise;
  for server NOT_SUP, an error for client ON and no encryption for client OFF, REQ
  and NOT_SUP.
\<close>

theorem parse_prelogin_matrix:
  assumes "distinct [ENCRYPT_OFF E, ENCRYPT_ON E, ENCRYPT_REQ E, ENCRYPT_NOT_SUP E]"
    and "prelogin_options T octets 0 2 s = (Inr (enc_code E srv), s1)"
    and "enc_flag login = enc_code E cli"
    and "\<not> tls_established s"
  shows "encryption_outcome E (parse_prelogin T E octets login s)
           = amended_encryption_matrix srv cli"
proof -
  from prelogin_options_tls[OF assms(2)] assms(4) have "\<not> tls_established s1" by simp
  with assms(1,2,3) show ?thesis
    by (cases srv; cases cli)
       (simp_all add: parse_prelogin_def encryption_outcome_def bad_stream_def Let_def)
qed

lemma prelogin_reply_options:
  "prelogin_options sample_token_ids (prelogin_reply flag) 0 2 s = (Inr (unat flag), s)"
  by (simp add: prelogin_options.simps sample_token_ids_def prelogin_reply_def be16_def)

lemma reply_with_options:
  "enc_code E srv < 256 \<Longrightarrow>
   prelogin_options sample_token_ids (reply_with E srv) 0 2 s = (Inr (enc_code E srv), s)"
  by (simp add: reply_with_def prelogin_reply_options unat_of_nat)

text \<open>
  Server OFF with client REQ under the numbering of the spec; server REQ with client
  NOT_SUP under the other numbering.
\<close>

theorem parse_prelogin_matrix_witness:
  "encryption_outcome spec_enc_ids
     (parse_prelogin sample_token_ids spec_enc_ids (reply_with spec_enc_ids FlagOff)
        (login_with spec_enc_ids FlagReq) (new_session 4096 [])) = EncryptLoginOnly
   \<and> encryption_outcome wire_enc_ids
     (parse_prelogin sample_token_ids wire_enc_ids (reply_with wire_enc_ids FlagReq)
        (login_with wire_enc_ids FlagNotSup) (new_session 4096 [])) = EncryptionError"
proof -
  have d1: "distinct [ENCRYPT_OFF spec_enc_ids, ENCRYPT_ON spec_enc_ids,
                      ENCRYPT_REQ spec_enc_ids, ENCRYPT_NOT_SUP spec_enc_ids]"
    by (simp add: spec_enc_ids_def)
  have d2: "distinct [ENCRYPT_OFF wire_enc_ids, ENCRYPT_ON wire_enc_ids,
                      ENCRYPT_REQ wire_enc_ids, ENCRYPT_NOT_SUP wire_enc_ids]"
    by (simp add: wire_enc_ids_def)
  have n: "\<not> tls_established (new_session 4096 [])" by (simp add: new_session_def)
  have o1: "prelogin_options sample_token_ids (reply_with spec_enc_ids FlagOff) 0 2
              (new_session 4096 [])
            = (Inr (enc_code spec_enc_ids FlagOff), new_session 4096 [])"
    by (rule reply_with_options) (simp add: spec_enc_ids_def)
  have o2: "prelogin_options sample_token_ids (reply_with wire_enc_ids FlagReq) 0 2
              (new_session 4096 [])
            = (Inr (enc_code wire_enc_ids FlagReq), new_session 4096 [])"
    by (rule reply_with_options) (simp add: wire_enc_ids_def)
  have c1: "enc_flag (login_with spec_enc_ids FlagReq) = enc_code spec_enc_ids FlagReq"
    by (simp add: login_with_def)
  have c2: "enc_flag (login_with wire_enc_ids FlagNotSup) = enc_code wire_enc_ids FlagNotSup"
    by (simp add: login_with_def)
  from parse_prelogin_matrix[OF d1 o1 c1 n] parse_prelogin_matrix[OF d2 o2 c2 n]
  show ?thesis by simp
qed

lemma parse_prelogin_cells:
  assumes "E = spec_enc_ids \<or> E = wire_enc_ids"
  shows "encryption_outcome E
           (parse_prelogin sample_token_ids E (reply_with E FlagNotSup)
              (login_with E FlagOff) (new_session 4096 [])) = NoEncryption"
    "encryption_outcome E
           (parse_prelogin sample_token_ids E (reply_with E FlagNotSup)
              (login_with E FlagReq) (new_session 4096 [])) = NoEncryption"
    "encryption_outcome E
           (parse_prelogin sample_token_ids E (reply_with E FlagOff)
              (login_with E FlagNotSup) (new_session 4096 [])) = EncryptLoginOnly"
    "encryption_outcome E
           (parse_prelogin sample_token_ids E (reply_with E FlagOn)
              (login_with E FlagNotSup) (new_session 4096 [])) = EncryptEntireChannel"
  using assms
  by (auto simp: parse_prelogin_def reply_with_def login_with_def prelogin_reply_options
      encryption_outcome_def spec_enc_ids_def wire_enc_ids_def new_session_def)

text \<open>
  C5 as the claim states it fails in four cells, under either numbering of the
  flags: server NOT_SUP with client OFF or REQ gives no encryption where the matrix
  of the spec has an error; server OFF with client NOT_SUP encrypts the login where
  the matrix has no encryption; server ON with client NOT_SUP encrypts the channel
  where the matrix has an error.
\<close>

theorem parse_prelogin_matrix_counterexample:
  "encryption_outcome spec_enc_ids
     (parse_prelogin sample_token_ids spec_enc_ids (reply_with spec_enc_ids FlagNotSup)
        (login_with spec_enc_ids FlagOff) (new_session 4096 [])) = NoEncryption
   \<and> encryption_outcome wire_enc_ids
     (parse_prelogin sample_token_ids wire_enc_ids (reply_with wire_enc_ids FlagNotSup)
        (login_with wire_enc_ids FlagOff) (new_session 4096 [])) = NoEncryption
   \<and> documented_encryption_matrix FlagNotSup FlagOff = EncryptionError
   \<and> encryption_outcome spec_enc_ids
     (parse_prelogin sample_token_ids spec_enc_ids (reply_with spec_enc_ids FlagNotSup)
        (login_with spec_enc_ids FlagReq) (new_session 4096 [])) = NoEncryption
   \<and> encryption_outcome wire_enc_ids
     (parse_prelogin sample_token_ids wire_enc_ids (reply_with wire_enc_ids FlagNotSup)
        (login_with wire_enc_ids FlagReq) (new_session 4096 [])) = NoEncryption
   \<and> documented_encryption_matrix FlagNotSup FlagReq = EncryptionError
   \<and> encryption_outcome spec_enc_ids
     (parse_prelogin sample_token_ids spec_enc_ids (reply_with spec_enc_ids FlagOff)
        (login_with spec_enc_ids FlagNotSup) (new_session 4096 [])) = EncryptLoginOnly
   \<and> encryption_outcome wire_enc_ids
     (parse_prelogin sample_token_ids wire_enc_ids (reply_with wire_enc_ids FlagOff)
        (login_with wire_enc_ids FlagNotSup) (new_session 4096 [])) = EncryptLoginOnly
   \<and> documented_encryption_matrix FlagOff FlagNotSup = NoEncryption
   \<and> encryption_outcome spec_enc_ids
     (parse_prelogin sample_token_ids spec_enc_ids (reply_with spec_enc_ids FlagOn)
        (login_with spec_enc_ids FlagNotSup) (new_session 4096 [])) = EncryptEntireChannel
   \<and> encryption_outcome wire_enc_ids
     (parse_prelogin sample_token_ids wire_enc_ids (reply_with wire_enc_ids FlagOn)
        (login_with wire_enc_ids FlagNotSup) (new_session 4096 [])) = EncryptEntireChannel
   \<and> documented_encryption_matrix FlagOn FlagNotSup = EncryptionError"
  by (simp add: parse_prelogin_cells)

subsection \<open>The reader: time-outs and closed connections\<close>

lemma read_header_loop_unfold:
  "read_header_loop pos r =
     (if pos < 8 then
        (let got = recv_into (length (r_buf r) - pos) (8 - pos) (r_transport r) in
         if isl (fst got) then (Inl (projl (fst got)), r\<lparr>r_transport := snd got\<rparr>)
         else if projr (fst got) = []
           then (Inl ClosedConnectionError, r\<lparr>r_transport := snd got\<rparr>)
         else read_header_loop (pos + length (projr (fst got)))
                (r\<lparr>r_buf := store_at pos (projr (fst got)) (r_buf r),
                   r_transport := snd got\<rparr>))
      else (Inr pos, r))"
  by (subst read_header_loop.simps) (auto simp: Let_def split: prod.splits sum.splits)

lemma read_body_loop_unfold:
  "read_body_loop pos r =
     (if pos < r_size r then
        (let got = recv_into (length (r_buf r) - pos) (r_size r - pos) (r_transport r) in
         if isl (fst got) then (Inl (projl (fst got)), r\<lparr>r_transport := snd got\<rparr>)
         else if projr (fst got) = []
           then (Inl ClosedConnectionError, r\<lparr>r_transport := snd got\<rparr>)
         else read_body_loop (pos + length (projr (fst got)))
                (r\<lparr>r_buf := store_at pos (projr (fst got)) (r_buf r),
                   r_transport := snd got, r_have := r_have r + length (projr (fst got))\<rparr>))
      else (Inr (), r))"
  by (subst read_body_loop.simps) (auto simp: Let_def split: prod.splits sum.splits)

lemma put_cancel_ok:
  assumes "8 \<le> bufsize (writer s)" "w_packet_no (writer s) < 256"
  shows "put_cancel s =
           (Inr (), s\<lparr>writer := (writer s)
                        \<lparr>w_buf := cancel_packet (w_packet_no (writer s)) @ drop 8 (w_buf (writer s)),
                         w_packet_no := (w_packet_no (writer s) + 1) mod 256,
                         w_sent := w_sent (writer s) @ [cancel_packet (w_packet_no (writer s))],
                         w_pos := 8, w_type := PacketType_CANCEL\<rparr>,
                      in_cancel := True\<rparr>)"
  using assms
  by (simp add: put_cancel_def flush_def write_packet_def begin_packet_def header_pack_into_def
      header_pack_def PacketType_CANCEL_def cancel_packet_def bufsize_def)

lemma read_packet_header_error:
  assumes "read_header_loop 0 (reader s) = (Inl e, r1)"
  shows "read_packet s =
           (if e = TimeoutError then
              (case put_cancel (s\<lparr>reader := r1\<rparr>) of
                 (Inl e', s') \<Rightarrow> (Inl e', s')
               | (Inr u, s') \<Rightarrow> (Inl TimeoutError, s'))
            else (Inl e, s\<lparr>reader := r1\<rparr>))"
  using assms by (simp add: read_packet_def)

lemma read_packet_body:
  assumes "read_header_loop 0 (reader s) = (Inr pos, r1)" "8 \<le> length (r_buf r1)"
  shows "read_packet s =
           (fst (read_body_loop pos (header_unpacked pos r1)),
            s\<lparr>spid := be16 (r_buf r1 ! 4) (r_buf r1 ! 5),
              reader := snd (read_body_loop pos (header_unpacked pos r1))\<rparr>)"
  using assms by (simp add: read_packet_def Let_def header_unpacked_def split_beta)

text \<open>
  C6, as amended. In \<open>_read_packet\<close>: a time-out while the 8-byte header is read
  makes \<open>put_cancel\<close> send a CANCEL packet and set \<open>in_cancel\<close> before the time-out is
  propagated (the writer's buffer holding a header and its packet number fitting a
  byte); a time-out while the rest of the packet is read is propagated with nothing
  sent and \<open>in_cancel\<close> untouched; and a read that returns zero bytes, in either
  loop and at any iteration, raises \<open>ClosedConnectionError\<close>, which
  \<open>_read_packet\<close> propagates.
\<close>

theorem read_packet_timeout_and_close:
  "(read_header_loop 0 (reader s) = (Inl TimeoutError, r1)
      \<and> 8 \<le> bufsize (writer s) \<and> w_packet_no (writer s) < 256 \<longrightarrow>
      (\<exists>s'. read_packet s = (Inl TimeoutError, s') \<and> in_cancel s'
            \<and> w_sent (writer s')
                = w_sent (writer s) @ [cancel_packet (w_packet_no (writer s))]))
   \<and> (read_header_loop 0 (reader s) = (Inr pos, r1) \<and> 8 \<le> length (r_buf r1)
        \<and> fst (read_body_loop pos (header_unpacked pos r1)) = Inl TimeoutError \<longrightarrow>
      (\<exists>s'. read_packet s = (Inl TimeoutError, s') \<and> in_cancel s' = in_cancel s
            \<and> writer s' = writer s))
   \<and> (read_header_loop 0 (reader s) = (Inl ClosedConnectionError, r1) \<longrightarrow>
        read_packet s = (Inl ClosedConnectionError, s\<lparr>reader := r1\<rparr>))
   \<and> (read_header_loop 0 (reader s) = (Inr pos, r1) \<and> 8 \<le> length (r_buf r1)
        \<and> fst (read_body_loop pos (header_unpacked pos r1)) = Inl ClosedConnectionError \<longrightarrow>
        fst (read_packet s) = Inl ClosedConnectionError)
   \<and> (p < 8 \<and> recv_into (length (r_buf r) - p) (8 - p) (r_transport r) = (Inr [], evs) \<longrightarrow>
        read_header_loop p r = (Inl ClosedConnectionError, r\<lparr>r_transport := evs\<rparr>))
   \<and> (p < r_size r
        \<and> recv_into (length (r_buf r) - p) (r_size r - p) (r_transport r) = (Inr [], evs) \<longrightarrow>
        read_body_loop p r = (Inl ClosedConnectionError, r\<lparr>r_transport := evs\<rparr>))"
proof (intro conjI impI)
  assume a: "read_header_loop 0 (reader s) = (Inl TimeoutError, r1)
      \<and> 8 \<le> bufsize (writer s) \<and> w_packet_no (writer s) < 256"
  then have "put_cancel (s\<lparr>reader := r1\<rparr>) =
           (Inr (), s\<lparr>reader := r1, writer := (writer s)
                        \<lparr>w_buf := cancel_packet (w_packet_no (writer s)) @ drop 8 (w_buf (writer s)),
                         w_packet_no := (w_packet_no (writer s) + 1) mod 256,
                         w_sent := w_sent (writer s) @ [cancel_packet (w_packet_no (writer s))],
                         w_pos := 8, w_type := PacketType_CANCEL\<rparr>,
                      in_cancel := True\<rparr>)"
    using put_cancel_ok[of "s\<lparr>reader := r1\<rparr>"] by simp
  with a show "\<exists>s'. read_packet s = (Inl TimeoutError, s') \<and> in_cancel s'
            \<and> w_sent (writer s')
                = w_sent (writer s) @ [cancel_packet (w_packet_no (writer s))]"
    by (simp add: read_packet_header_error)
next
  assume a: "read_header_loop 0 (reader s) = (Inr pos, r1) \<and> 8 \<le> length (r_buf r1)
        \<and> fst (read_body_loop pos (header_unpacked pos r1)) = Inl TimeoutError"
  then show "\<exists>s'. read_packet s = (Inl TimeoutError, s') \<and> in_cancel s' = in_cancel s
            \<and> writer s' = writer s"
    by (simp add: read_packet_body)
next
  assume "read_header_loop 0 (reader s) = (Inl ClosedConnectionError, r1)"
  then show "read_packet s = (Inl ClosedConnectionError, s\<lparr>reader := r1\<rparr>)"
    by (simp add: read_packet_header_error)
next
  assume "read_header_loop 0 (reader s) = (Inr pos, r1) \<and> 8 \<le> length (r_buf r1)
        \<and> fst (read_body_loop pos (header_unpacked pos r1)) = Inl ClosedConnectionError"
  then show "fst (read_packet s) = Inl ClosedConnectionError"
    by (simp add: read_packet_body)
next
  assume "p < 8 \<and> recv_into (length (r_buf r) - p) (8 - p) (r_transport r) = (Inr [], evs)"
  then show "read_header_loop p r = (Inl ClosedConnectionError, r\<lparr>r_transport := evs\<rparr>)"
    by (subst read_header_loop.simps) simp
next
  assume "p < r_size r
        \<and> recv_into (length (r_buf r) - p) (r_size r - p) (r_transport r) = (Inr [], evs)"
  then show "read_body_loop p r = (Inl ClosedConnectionError, r\<lparr>r_transport := evs\<rparr>)"
    by (subst read_body_loop.simps) simp
qed

lemma header_timeout_example:
  "read_header_loop 0 (reader (new_session 4096 [Received [4, 1], TimedOut]))
     = (Inl TimeoutError, (new_reader [])\<lparr>r_buf := [4, 1] @ replicate 4094 0\<rparr>)"
  by (simp add: read_header_loop_unfold recv_into_def new_session_def new_reader_def
      store_at_def)

lemma header_read_example:
  "read_header_loop 0 (reader (new_session 4096 (Received [4, 1, 0, 12, 0, 0, 1, 0] # evs)))
     = (Inr 8, (new_reader evs)\<lparr>r_buf := [4, 1, 0, 12, 0, 0, 1, 0] @ replicate 4088 0\<rparr>)"
  by (simp add: read_header_loop_unfold recv_into_def new_session_def new_reader_def
      store_at_def)

lemma body_timeout_example:
  "fst (read_body_loop 8
          (header_unpacked 8
             ((new_reader [TimedOut])\<lparr>r_buf := [4, 1, 0, 12, 0, 0, 1, 0] @ replicate 4088 0\<rparr>)))
     = Inl TimeoutError"
  by (simp add: read_body_loop_unfold recv_into_def new_reader_def header_unpacked_def
      be16_def store_at_def)

lemma body_closed_example:
  "fst (read_body_loop 8
          (header_unpacked 8
             ((new_reader [Received [9, 9], Received []])
                \<lparr>r_buf := [4, 1, 0, 12, 0, 0, 1, 0] @ replicate 4088 0\<rparr>)))
     = Inl ClosedConnectionError"
  by (simp add: read_body_loop_unfold recv_into_def new_reader_def header_unpacked_def
      be16_def store_at_def)

text \<open>
  A time-out after two header bytes; a time-out after the header of a 12-byte packet;
  a connection closed after two of its four payload bytes.
\<close>

theorem read_packet_timeout_and_close_witness:
  "(\<exists>s'. read_packet (new_session 4096 [Received [4, 1], TimedOut]) = (Inl TimeoutError, s')
         \<and> in_cancel s' \<and> w_sent (writer s') = [[6, 1, 0, 8, 0, 0, 0, 0]])
   \<and> (\<exists>s'. read_packet (new_session 4096 [Received [4, 1, 0, 12, 0, 0, 1, 0], TimedOut])
              = (Inl TimeoutError, s')
         \<and> \<not> in_cancel s' \<and> w_sent (writer s') = [])
   \<and> fst (read_packet (new_session 4096
              [Received [4, 1, 0, 12, 0, 0, 1, 0], Received [9, 9], Received []]))
       = Inl ClosedConnectionError"
proof -
  let ?s1 = "new_session 4096 [Received [4, 1], TimedOut]"
  let ?s2 = "new_session 4096 [Received [4, 1, 0, 12, 0, 0, 1, 0], TimedOut]"
  let ?s3 = "new_session 4096 [Received [4, 1, 0, 12, 0, 0, 1, 0], Received [9, 9], Received []]"
  have w: "8 \<le> bufsize (writer ?s1) \<and> w_packet_no (writer ?s1) < 256"
    by (simp add: new_session_def new_writer_def bufsize_def)
  from read_packet_timeout_and_close
         [where s = ?s1 and ?r1.0 = "(new_reader [])\<lparr>r_buf := [4, 1] @ replicate 4094 0\<rparr>"]
       header_timeout_example w
  have "\<exists>s'. read_packet ?s1 = (Inl TimeoutError, s') \<and> in_cancel s'
            \<and> w_sent (writer s')
                = w_sent (writer ?s1) @ [cancel_packet (w_packet_no (writer ?s1))]"
    by blast
  then obtain s1' where "read_packet ?s1 = (Inl TimeoutError, s1')" "in_cancel s1'"
    "w_sent (writer s1') = w_sent (writer ?s1) @ [cancel_packet (w_packet_no (writer ?s1))]"
    by blast
  then have "read_packet ?s1 = (Inl TimeoutError, s1') \<and> in_cancel s1'
            \<and> w_sent (writer s1') = [[6, 1, 0, 8, 0, 0, 0, 0]]"
    by (simp add: new_session_def new_writer_def cancel_packet_def)
  then have 1: "\<exists>s'. read_packet ?s1 = (Inl TimeoutError, s') \<and> in_cancel s'
            \<and> w_sent (writer s') = [[6, 1, 0, 8, 0, 0, 0, 0]]" by (rule exI)
  have l2: "8 \<le> length (r_buf ((new_reader [TimedOut])
              \<lparr>r_buf := [4, 1, 0, 12, 0, 0, 1, 0] @ replicate 4088 0\<rparr>))" by simp
  from read_packet_timeout_and_close
         [where s = ?s2 and pos = 8
            and ?r1.0 = "(new_reader [TimedOut])
                           \<lparr>r_buf := [4, 1, 0, 12, 0, 0, 1, 0] @ replicate 4088 0\<rparr>"]
       header_read_example[of "[TimedOut]"] body_timeout_example l2
  have "\<exists>s'. read_packet ?s2 = (Inl TimeoutError, s') \<and> in_cancel s' = in_cancel ?s2
            \<and> writer s' = writer ?s2"
    by blast
  then obtain s2' where "read_packet ?s2 = (Inl TimeoutError, s2')"
    "in_cancel s2' = in_cancel ?s2" "writer s2' = writer ?s2" by blast
  then have "read_packet ?s2 = (Inl TimeoutError, s2') \<and> \<not> in_cancel s2'
            \<and> w_sent (writer s2') = []"
    by (simp add: new_session_def new_writer_def)
  then have 2: "\<exists>s'. read_packet ?s2 = (Inl TimeoutError, s') \<and> \<not> in_cancel s'
            \<and> w_sent (writer s') = []" by (rule exI)
  have l3: "8 \<le> length (r_buf ((new_reader [Received [9, 9], Received []])
              \<lparr>r_buf := [4, 1, 0, 12, 0, 0, 1, 0] @ replicate 4088 0\<rparr>))" by simp
  from read_packet_timeout_and_close
         [where s = ?s3 and pos = 8
            and ?r1.0 = "(new_reader [Received [9, 9], Received []])
                           \<lparr>r_buf := [4, 1, 0, 12, 0, 0, 1, 0] @ replicate 4088 0\<rparr>"]
       header_read_example[of "[Received [9, 9], Received []]"] body_closed_example l3
  have 3: "fst (read_packet ?s3) = Inl ClosedConnectionError"
    by blast
  from 1 2 3 show ?thesis by blast
qed

text \<open>
  C6 as the claim states it fails: the header of a 12-byte packet arrives, the next
  read times out, and the time-out reaches the caller with no CANCEL sent and
  \<open>in_cancel\<close> still false.
\<close>

theorem read_packet_body_timeout_counterexample:
  "fst (read_packet (new_session 4096 [Received [4, 1, 0, 12, 0, 0, 1, 0], TimedOut]))
     = Inl TimeoutError
   \<and> w_sent (writer (snd (read_packet
         (new_session 4096 [Received [4, 1, 0, 12, 0, 0, 1, 0], TimedOut])))) = []
   \<and> \<not> in_cancel (snd (read_packet
         (new_session 4096 [Received [4, 1, 0, 12, 0, 0, 1, 0], TimedOut])))"
proof -
  let ?s2 = "new_session 4096 [Received [4, 1, 0, 12, 0, 0, 1, 0], TimedOut]"
  have l2: "8 \<le> length (r_buf ((new_reader [TimedOut])
              \<lparr>r_buf := [4, 1, 0, 12, 0, 0, 1, 0] @ replicate 4088 0\<rparr>))" by simp
  note rp = read_packet_body[OF header_read_example[of "[TimedOut]"] l2]
  show ?thesis unfolding rp body_timeout_example
    by (simp add: new_session_def new_writer_def)
qed

end
